theory Spec2Isabelle
  imports Main "HOL-Library.Word"
begin

unbundle bit_operations_syntax

text \<open>
  A shallow embedding of three parts of the TeslapLX firmware and the proofs of what its
  specification says about them: the command interpreter of \<^verbatim>\<open>elm.c\<close> with its filter tables
  and its monitor task, the per-identifier rate limiter of \<^verbatim>\<open>can.c\<close>, and the buffered
  transport of \<^verbatim>\<open>bt.c\<close>. Machine integers are words of their width, C arrays are lists read
  and written by index, the global variables of a file are a record that every function
  takes and returns, and what a function does outside that record is a list of events. The
  definitions come first, file by file; the proofs follow in the same order.
\<close>


section \<open>ELM327 interpreter: session data (elm.c)\<close>

text \<open>
  \<^verbatim>\<open>typedef struct { uint32_t pattern; uint32_t mask; } elm_filter_t;\<close>
  The field names carry a prefix because \<open>mask\<close> is a constant of the word library.
\<close>

record elm_filter_t =
  flt_pattern :: "32 word"
  flt_mask :: "32 word"

definition ELM_ST_FILTER_LEN :: nat where
  "ELM_ST_FILTER_LEN = 100"

definition ELM_TIMEOUT :: "32 word" where
  "ELM_TIMEOUT = 5000"

definition ELM_DEFAULT_PROTOCOL :: char where
  "ELM_DEFAULT_PROTOCOL = CHR ''0''"

text \<open>
  \<^verbatim>\<open>elm_globals_t\<close>, one per session. A C string buffer is a \<open>string\<close> (the bytes before
  the terminating NUL); the heap pointer \<^verbatim>\<open>elm_device_identifier\<close> is an option, \<open>None\<close>
  being NULL. The two filter tables are C arrays of \<^verbatim>\<open>ELM_ST_FILTER_LEN\<close> slots, here lists
  read and written by index. \<^verbatim>\<open>elm_monitor_out\<close> is the session's output stream (\<^verbatim>\<open>elm_do\<close>
  sets it to \<^verbatim>\<open>stdout\<close>, and the monitor task sets its \<^verbatim>\<open>stdout\<close> to it), so the model has one
  output per session and no field for it.
\<close>

record elm_globals_t =
  elm_tag :: string
  elm_echo :: bool
  elm_linefeed :: bool
  elm_headers :: bool
  elm_spaces :: bool
  elm_dlc :: bool
  elm_timeout :: "32 word"
  elm_device_identifier :: "string option"
  elm_previous_cmd :: string
  elm_memory :: bool
  elm_adaptive :: int
  elm_can_auto_format :: bool
  elm_can_flow_control :: bool
  elm_can_silent_mode :: bool
  elm_long_message :: bool
  elm_protocol :: char
  elm_protocol_auto :: bool
  elm_monitor :: bool
  elm_monitor_task_run :: bool
  elm_filter :: elm_filter_t
  pass_filter :: "elm_filter_t list"
  block_filter :: "elm_filter_t list"

subsection \<open>The pass and block tables\<close>

definition zero_filter :: elm_filter_t where
  "zero_filter = \<lparr>flt_pattern = 0, flt_mask = 0\<rparr>"

text \<open>
  \<^verbatim>\<open>elm_filter_clear\<close>: the loop over \<open>i\<close>, leaving at the first slot whose mask is 0.
\<close>

function elm_filter_clear_from :: "elm_filter_t list \<Rightarrow> nat \<Rightarrow> elm_filter_t list" where
  "elm_filter_clear_from flt i =
     (if i < ELM_ST_FILTER_LEN then
        (if flt_mask (flt ! i) = 0 then flt
         else elm_filter_clear_from (flt[i := zero_filter]) (Suc i))
      else flt)"
  by pat_completeness auto
termination
  by (relation "measure (\<lambda>(flt, i). ELM_ST_FILTER_LEN - i)") auto

definition elm_filter_clear :: "elm_filter_t list \<Rightarrow> elm_filter_t list" where
  "elm_filter_clear flt = elm_filter_clear_from flt 0"

text \<open>
  \<^verbatim>\<open>elm_filter_add\<close>: the first slot whose mask is 0 takes the rule; the result is the
  returned flag and the table.
\<close>

function elm_filter_add_from ::
  "elm_filter_t list \<Rightarrow> 32 word \<Rightarrow> 32 word \<Rightarrow> nat \<Rightarrow> bool \<times> elm_filter_t list" where
  "elm_filter_add_from flt p m i =
     (if i < ELM_ST_FILTER_LEN then
        (if flt_mask (flt ! i) = 0
         then (True, flt[i := \<lparr>flt_pattern = p, flt_mask = m\<rparr>])
         else elm_filter_add_from flt p m (Suc i))
      else (False, flt))"
  by pat_completeness auto
termination
  by (relation "measure (\<lambda>(flt, p, m, i). ELM_ST_FILTER_LEN - i)") auto

definition elm_filter_add ::
  "elm_filter_t list \<Rightarrow> 32 word \<Rightarrow> 32 word \<Rightarrow> bool \<times> elm_filter_t list" where
  "elm_filter_add flt p m = elm_filter_add_from flt p m 0"

text \<open>The comparison \<^verbatim>\<open>(id & f.mask) == (f.pattern & f.mask)\<close> that the test makes on a rule.\<close>

definition id_matches :: "32 word \<Rightarrow> elm_filter_t \<Rightarrow> bool" where
  "id_matches ident r = (ident AND flt_mask r = flt_pattern r AND flt_mask r)"

text \<open>
  The two loops of \<^verbatim>\<open>elm_filter_test\<close>. The pass loop starts from \<^verbatim>\<open>ok = false\<close> and sets it
  on a match; the block loop starts from \<^verbatim>\<open>ok = true\<close> and clears it on a match. Each returns
  the value of \<^verbatim>\<open>ok\<close> when the loop is left.
\<close>

function pass_loop :: "elm_filter_t list \<Rightarrow> 32 word \<Rightarrow> nat \<Rightarrow> bool" where
  "pass_loop flt ident i =
     (if i < ELM_ST_FILTER_LEN then
        (if flt_mask (flt ! i) = 0 then False
         else if ident AND flt_mask (flt ! i) = flt_pattern (flt ! i) AND flt_mask (flt ! i)
         then True
         else pass_loop flt ident (Suc i))
      else False)"
  by pat_completeness auto
termination
  by (relation "measure (\<lambda>(flt, ident, i). ELM_ST_FILTER_LEN - i)") auto

function block_loop :: "elm_filter_t list \<Rightarrow> 32 word \<Rightarrow> nat \<Rightarrow> bool" where
  "block_loop flt ident i =
     (if i < ELM_ST_FILTER_LEN then
        (if flt_mask (flt ! i) = 0 then True
         else if ident AND flt_mask (flt ! i) = flt_pattern (flt ! i) AND flt_mask (flt ! i)
         then False
         else block_loop flt ident (Suc i))
      else True)"
  by pat_completeness auto
termination
  by (relation "measure (\<lambda>(flt, ident, i). ELM_ST_FILTER_LEN - i)") auto

text \<open>
  \<^verbatim>\<open>bool elm_filter_test(elm_globals_t* g, uint32_t id, uint32_t us)\<close>. The body assigns to
  nothing but its local \<^verbatim>\<open>ok\<close>, so the model is a function of the session state that returns
  the flag only. The parameter \<^verbatim>\<open>us\<close> is not used by the source.
\<close>

definition elm_filter_test :: "elm_globals_t \<Rightarrow> 32 word \<Rightarrow> 32 word \<Rightarrow> bool" where
  "elm_filter_test g ident us =
     (if ident = 0 then False
      else if ident AND flt_mask (elm_filter g) \<noteq> flt_pattern (elm_filter g) AND flt_mask (elm_filter g)
      then False
      else
        (let ok = True;
             ok = (if flt_mask (pass_filter g ! 0) \<noteq> 0 then pass_loop (pass_filter g) ident 0 else ok);
             ok = (if ok \<and> flt_mask (block_filter g ! 0) \<noteq> 0
                   then block_loop (block_filter g) ident 0 else ok)
         in ok))"

text \<open>
  The rules a table holds: the slots before the first one whose mask is 0, in order. The
  occupied slots are those whose mask is not 0; they form a prefix of the table when every
  slot after the first free one is free as well.
\<close>

definition stored_rules :: "elm_filter_t list \<Rightarrow> elm_filter_t list" where
  "stored_rules flt = takeWhile (\<lambda>r. flt_mask r \<noteq> 0) flt"

definition occupied :: "elm_filter_t list \<Rightarrow> elm_filter_t list" where
  "occupied flt = filter (\<lambda>r. flt_mask r \<noteq> 0) flt"

definition prefix_inv :: "elm_filter_t list \<Rightarrow> bool" where
  "prefix_inv flt = list_all (\<lambda>r. flt_mask r = 0) (dropWhile (\<lambda>r. flt_mask r \<noteq> 0) flt)"


text \<open>
  A table is well formed when it has its \<^verbatim>\<open>ELM_ST_FILTER_LEN\<close> slots and its occupied slots
  form a prefix; a session's tables are well formed when both are.
\<close>

definition table_ok :: "elm_filter_t list \<Rightarrow> bool" where
  "table_ok flt = (length flt = ELM_ST_FILTER_LEN \<and> prefix_inv flt)"

definition filters_inv :: "elm_globals_t \<Rightarrow> bool" where
  "filters_inv g = (table_ok (pass_filter g) \<and> table_ok (block_filter g))"

subsection \<open>Reset\<close>

text \<open>
  \<^verbatim>\<open>elm_reset\<close>, assignment by assignment. \<^verbatim>\<open>G.elm_previous_cmd[0] = 0\<close> makes the stored
  line the empty string. The source assigns neither \<^verbatim>\<open>elm_tag\<close>, \<^verbatim>\<open>elm_device_identifier\<close> nor
  \<^verbatim>\<open>elm_monitor_task_run\<close> here.
\<close>

definition elm_reset :: "elm_globals_t \<Rightarrow> elm_globals_t" where
  "elm_reset g =
     g\<lparr>elm_echo := True,
       elm_linefeed := True,
       elm_headers := True,
       elm_spaces := True,
       elm_dlc := False,
       elm_timeout := ELM_TIMEOUT,
       elm_previous_cmd := [],
       elm_memory := True,
       elm_adaptive := 1,
       elm_can_auto_format := False,
       elm_can_flow_control := True,
       elm_can_silent_mode := True,
       elm_long_message := False,
       elm_protocol := ELM_DEFAULT_PROTOCOL,
       elm_protocol_auto := True,
       elm_monitor := False,
       elm_filter := \<lparr>flt_pattern = 0, flt_mask = 0\<rparr>,
       pass_filter := elm_filter_clear (pass_filter g),
       block_filter := elm_filter_clear (block_filter g)\<rparr>"

text \<open>
  The session state \<^verbatim>\<open>elm_do\<close> starts from: the \<^verbatim>\<open>memset(g, 0, sizeof(*g))\<close> of the fresh
  allocation, then the tag; \<^verbatim>\<open>elm_do\<close> calls \<^verbatim>\<open>elm_reset\<close> on it before the first prompt.
\<close>

definition elm_zeroed :: "string \<Rightarrow> elm_globals_t" where
  "elm_zeroed tag =
     \<lparr>elm_tag = tag, elm_echo = False, elm_linefeed = False, elm_headers = False,
      elm_spaces = False, elm_dlc = False, elm_timeout = 0, elm_device_identifier = None,
      elm_previous_cmd = [], elm_memory = False, elm_adaptive = 0,
      elm_can_auto_format = False, elm_can_flow_control = False,
      elm_can_silent_mode = False, elm_long_message = False, elm_protocol = CHR 0x00,
      elm_protocol_auto = False, elm_monitor = False, elm_monitor_task_run = False,
      elm_filter = zero_filter,
      pass_filter = replicate ELM_ST_FILTER_LEN zero_filter,
      block_filter = replicate ELM_ST_FILTER_LEN zero_filter\<rparr>"

definition elm_session_start :: "string \<Rightarrow> elm_globals_t" where
  "elm_session_start tag = elm_reset (elm_zeroed tag)"

subsection \<open>What a command does outside the session state\<close>

text \<open>
  A dispatched command returns the new session state and the list of what it did, in
  order: text written to the session output (\<^verbatim>\<open>printf\<close>, \<^verbatim>\<open>fprintf\<close>), and the calls into the
  external collaborators (restart, task list, heap report, log level, bus simulator,
  network, firmware update, task delay, creation of the monitor task). The logging macros
  \<^verbatim>\<open>ESP_LOGx\<close> and \<^verbatim>\<open>fflush\<close> write nothing to the session output and are left out.
\<close>

datatype event =
    Write string
  | EspRestart
  | CmdPs
  | CmdFree
  | ElogOutSet
  | ElogLevelSet string "32 word"
  | CanSimuStart
  | CanSimuStop
  | WifiStatus
  | WifiSta string string
  | WifiAp string string
  | WifiStop
  | WifiScan
  | OtaInfo
  | OtaUpdate string
  | TaskDelay nat
  | MonitorTaskCreate

text \<open>The text a list of events puts on the session output.\<close>

fun written :: "event list \<Rightarrow> string" where
  "written [] = []"
| "written (Write s # es) = s @ written es"
| "written (e # es) = written es"

text \<open>
  The flags \<^verbatim>\<open>wifi_sta\<close>, \<^verbatim>\<open>wifi_ap\<close> and \<^verbatim>\<open>wifi_stop\<close> return; the network code is outside
  the interpreter, so the dispatcher takes their answers as a parameter.
\<close>

record ext_results =
  wifi_sta_ok :: bool
  wifi_ap_ok :: bool
  wifi_stop_ok :: bool

definition ELM_VERSION_STRING :: string where
  "ELM_VERSION_STRING = ''ELM327 v1.3a Teslap''"

definition ST_VERSION_STRING :: string where
  "ST_VERSION_STRING = ''STN1110 r0.1 Teslap''"

definition ELM_DEVICE_STRING :: string where
  "ELM_DEVICE_STRING = ''Espnux''"

definition ELM_PROMPT :: string where
  "ELM_PROMPT = ''>''"

definition ELM_QUERY_PROMPT :: string where
  "ELM_QUERY_PROMPT = ''?''"

definition ELM_OK_PROMPT :: string where
  "ELM_OK_PROMPT = ''OK''"

definition ELM_ERROR_PROMPT :: string where
  "ELM_ERROR_PROMPT = ''ERROR''"

definition ELM_NODATA_PROMPT :: string where
  "ELM_NODATA_PROMPT = ''NO DATA''"

definition NEWLINE_CRLF :: string where
  "NEWLINE_CRLF = [CHR 0x0D, CHR 0x0A]"

definition NEWLINE_CR :: string where
  "NEWLINE_CR = [CHR 0x0D]"

definition ELM_NEWLINE :: "elm_globals_t \<Rightarrow> string" where
  "ELM_NEWLINE g = (if elm_linefeed g then NEWLINE_CRLF else NEWLINE_CR)"

definition elm_newline :: "elm_globals_t \<Rightarrow> event list" where
  "elm_newline g = [Write (ELM_NEWLINE g)]"

text \<open>\<^verbatim>\<open>elm_writeln\<close>: \<^verbatim>\<open>if (str) printf(str);\<close> then the newline. \<open>None\<close> is the NULL pointer.\<close>

definition elm_writeln :: "elm_globals_t \<Rightarrow> string option \<Rightarrow> event list" where
  "elm_writeln g str = (case str of None \<Rightarrow> [] | Some s \<Rightarrow> [Write s]) @ elm_newline g"

definition elm_write_prompt :: "elm_globals_t \<Rightarrow> event list" where
  "elm_write_prompt g = [Write ELM_PROMPT]"

definition elm_write_ok :: "elm_globals_t \<Rightarrow> event list" where
  "elm_write_ok g = Write ELM_OK_PROMPT # elm_newline g"

definition elm_write_error :: "elm_globals_t \<Rightarrow> event list" where
  "elm_write_error g = Write ELM_ERROR_PROMPT # elm_newline g"

definition elm_write_ok_error :: "elm_globals_t \<Rightarrow> bool \<Rightarrow> event list" where
  "elm_write_ok_error g ok = (if ok then elm_write_ok g else elm_write_error g)"

text \<open>
  The protocol table, as (number, description), and \<^verbatim>\<open>elm_get_protocol\<close>: the first entry
  whose number starts with the given character, entry 0 when there is none.
\<close>

definition elm_protocols :: "(string \<times> string) list" where
  "elm_protocols =
     [(''0'', ''Automatic''),
      (''1'', ''SAE J1850 PWM''),
      (''2'', ''SAE J1850 VPW''),
      (''3'', ''ISO 9141-2''),
      (''4'', ''ISO 14230-4 (KWP 5BAUD)''),
      (''5'', ''ISO 14230-4 (KWP FAST)''),
      (''6'', ''ISO 15765-4 (CAN 11/500)''),
      (''7'', ''ISO 15765-4 (CAN 29/500)''),
      (''8'', ''ISO 15765-4 (CAN 11/250)''),
      (''9'', ''ISO 15765-4 (CAN 29/250)''),
      (''A'', ''SAE J1939 (CAN 29/250)''),
      (''B'', ''USER1 CAN''),
      (''C'', ''USER2 CAN'')]"

definition elm_get_protocol :: "char \<Rightarrow> string \<times> string" where
  "elm_get_protocol protocol_num =
     (case find (\<lambda>p. hd (fst p) = protocol_num) elm_protocols of
        Some p \<Rightarrow> p
      | None \<Rightarrow> hd elm_protocols)"

subsection \<open>C strings\<close>

text \<open>
  A C string is the list of its bytes before the NUL. \<open>char_at s i\<close> is \<^verbatim>\<open>s[i]\<close> for an index
  up to the terminator, where it reads the NUL.
\<close>

definition char_at :: "string \<Rightarrow> nat \<Rightarrow> char" where
  "char_at s i = (if i < length s then s ! i else CHR 0x00)"

definition c_tolower :: "char \<Rightarrow> char" where
  "c_tolower c =
     (if (65::nat) \<le> of_char c \<and> of_char c \<le> (90::nat)
      then char_of (of_char c + (32::nat)) else c)"

text \<open>\<^verbatim>\<open>strcasecmp(a, b) == 0\<close> and \<^verbatim>\<open>strncasecmp(a, b, n) == 0\<close>.\<close>

definition strcasecmp_eq :: "string \<Rightarrow> string \<Rightarrow> bool" where
  "strcasecmp_eq a b = (map c_tolower a = map c_tolower b)"

definition strncasecmp_eq :: "string \<Rightarrow> string \<Rightarrow> nat \<Rightarrow> bool" where
  "strncasecmp_eq a b n = (map c_tolower (take n a) = map c_tolower (take n b))"

text \<open>The loop \<^verbatim>\<open>while (*c == ' ') c++;\<close>.\<close>

definition skip_spaces :: "string \<Rightarrow> string" where
  "skip_spaces c = dropWhile (\<lambda>x. x = CHR '' '') c"

text \<open>
  \<^verbatim>\<open>elm_read_hexa\<close>: hexadecimal digits are taken while there are any, each shifting the
  32-bit value left by four bits; the result is the rest of the string and the value.
\<close>

definition hex_digit :: "char \<Rightarrow> nat option" where
  "hex_digit c =
     (let n = (of_char c :: nat) in
      if 48 \<le> n \<and> n \<le> 57 then Some (n - 48)
      else if 65 \<le> n \<and> n \<le> 70 then Some (n - 65 + 10)
      else if 97 \<le> n \<and> n \<le> 102 then Some (n - 97 + 10)
      else None)"

fun hexa_loop :: "string \<Rightarrow> 32 word \<Rightarrow> string \<times> 32 word" where
  "hexa_loop [] h = ([], h)"
| "hexa_loop (c # cs) h =
     (case hex_digit c of
        Some d \<Rightarrow> hexa_loop cs (push_bit 4 h + of_nat d)
      | None \<Rightarrow> (c # cs, h))"

definition elm_read_hexa :: "string \<Rightarrow> string \<times> 32 word" where
  "elm_read_hexa c = hexa_loop c 0"

text \<open>
  \<^verbatim>\<open>elm_read_str\<close>: a token in double quotes, in single quotes, or up to the next space; the
  delimiter after it, when there is one, is overwritten by NUL and skipped. The result is
  the rest of the string and the token.
\<close>

definition elm_read_str :: "string \<Rightarrow> string \<times> string" where
  "elm_read_str c0 =
     (let c = skip_spaces c0;
          (body, stop) =
            (if char_at c 0 = CHR 0x22 then (drop 1 c, \<lambda>x. x = CHR 0x22)
             else if char_at c 0 = CHR 0x27 then (drop 1 c, \<lambda>x. x = CHR 0x27)
             else (c, \<lambda>x. x = CHR '' ''))
      in (drop 1 (dropWhile (\<lambda>x. \<not> stop x) body), takeWhile (\<lambda>x. \<not> stop x) body))"


subsection \<open>The command dispatcher\<close>

text \<open>
  \<^verbatim>\<open>elm_monitor_start\<close>: nothing when the monitor is on; otherwise the flag is set and the
  monitor task is created.
\<close>

definition elm_monitor_start :: "elm_globals_t \<Rightarrow> elm_globals_t \<times> event list" where
  "elm_monitor_start g =
     (if elm_monitor g then (g, []) else (g\<lparr>elm_monitor := True\<rparr>, [MonitorTaskCreate]))"

text \<open>
  The test of an on/off command,
  \<^verbatim>\<open>strncasecmp(c, name, n) == 0 && (c[n] == '0' || c[n] == '1')\<close> with \<open>n\<close> the length of the
  name, and the flag \<^verbatim>\<open>c[n] != '0'\<close> it sets.
\<close>

definition is_toggle :: "string \<Rightarrow> string \<Rightarrow> bool" where
  "is_toggle c name =
     (strncasecmp_eq c name (length name) \<and>
      (char_at c (length name) = CHR ''0'' \<or> char_at c (length name) = CHR ''1''))"

definition toggle_en :: "string \<Rightarrow> string \<Rightarrow> bool" where
  "toggle_en c name = (char_at c (length name) \<noteq> CHR ''0'')"

text \<open>
  The loop of \<^verbatim>\<open>ATCRA<hex...>\<close>: a hexadecimal digit shifts the filter and the mask by four
  bits and adds the digit and \<open>0xf\<close>; \<^verbatim>\<open>X\<close> or \<^verbatim>\<open>x\<close> shifts both and adds nothing; any other
  character is passed over.
\<close>

fun cra_loop :: "string \<Rightarrow> 32 word \<Rightarrow> 32 word \<Rightarrow> 32 word \<times> 32 word" where
  "cra_loop [] f m = (f, m)"
| "cra_loop (c # cs) f m =
     (case hex_digit c of
        Some d \<Rightarrow> cra_loop cs (push_bit 4 f + of_nat d) (push_bit 4 m + 0xf)
      | None \<Rightarrow>
          if c = CHR ''X'' \<or> c = CHR ''x'' then cra_loop cs (push_bit 4 f) (push_bit 4 m)
          else cra_loop cs f m)"

text \<open>
  The arguments of \<^verbatim>\<open>STFPA\<close> and \<^verbatim>\<open>STFBA\<close> (the source reads them with the same lines in both
  branches): spaces, the pattern, spaces, a comma, spaces, the mask. \<open>None\<close> is
  \<^verbatim>\<open>goto _err\<close>. The argument is \<open>c\<close> after the two letters \<^verbatim>\<open>ST\<close>.
\<close>

definition st_read_rule :: "string \<Rightarrow> (32 word \<times> 32 word) option" where
  "st_read_rule c0 =
     (let c = skip_spaces (drop 3 c0) in
      if c = [] then None
      else
        (let (c, pat) = elm_read_hexa c;
             c = skip_spaces c in
         if char_at c 0 \<noteq> CHR '','' then None
         else
           (let c = skip_spaces (drop 1 c);
                (c, msk) = elm_read_hexa c
            in Some (pat, msk))))"

text \<open>
  The branch of the commands that start with \<^verbatim>\<open>ST\<close>. \<open>None\<close> means that no command of the
  branch returned, and control reaches the label \<^verbatim>\<open>_err\<close>.
\<close>

definition elm_do_st :: "elm_globals_t \<Rightarrow> string \<Rightarrow> (elm_globals_t \<times> event list) option" where
  "elm_do_st g cmd =
     (let c = drop 2 cmd in
      if strcasecmp_eq c ''DI'' then Some (g, elm_writeln g (Some ST_VERSION_STRING))
      else if strcasecmp_eq c ''F'' then Some (g, [])
      else if strcasecmp_eq c ''FAC'' \<or> strcasecmp_eq c ''FCA'' then
        (let g' = g\<lparr>pass_filter := elm_filter_clear (pass_filter g),
                     block_filter := elm_filter_clear (block_filter g)\<rparr>
         in Some (g', elm_write_ok g'))
      else if strncasecmp_eq c ''FPA'' 3 \<or> strncasecmp_eq c ''FAP'' 3 then
        (case st_read_rule c of
           None \<Rightarrow> None
         | Some (pat, msk) \<Rightarrow>
             (let (ok, flt) = elm_filter_add (pass_filter g) pat msk;
                  g' = g\<lparr>pass_filter := flt\<rparr>
              in Some (g', if ok then elm_write_ok g' else elm_writeln g' (Some ''??''))))
      else if strcasecmp_eq c ''FPC'' \<or> strcasecmp_eq c ''FCP'' then
        (let g' = g\<lparr>pass_filter := elm_filter_clear (pass_filter g)\<rparr>
         in Some (g', elm_write_ok g'))
      else if strncasecmp_eq c ''FBA'' 3 \<or> strncasecmp_eq c ''FAB'' 3 then
        (case st_read_rule c of
           None \<Rightarrow> None
         | Some (pat, msk) \<Rightarrow>
             (let (ok, flt) = elm_filter_add (block_filter g) pat msk;
                  g' = g\<lparr>block_filter := flt\<rparr>
              in Some (g', if ok then elm_write_ok g' else elm_writeln g' (Some ''??''))))
      else if strcasecmp_eq c ''FBC'' \<or> strcasecmp_eq c ''FCB'' then
        (let g' = g\<lparr>block_filter := elm_filter_clear (block_filter g)\<rparr>
         in Some (g', elm_write_ok g'))
      else if strcasecmp_eq c ''M'' then Some (elm_monitor_start g)
      else if strcasecmp_eq c ''MA'' then Some (elm_monitor_start g)
      else None)"

text \<open>
  \<^verbatim>\<open>ATSP\<close> and \<^verbatim>\<open>ATTP\<close> read their argument alike: spaces, an optional capital \<^verbatim>\<open>A\<close> for the
  auto flag, then the protocol character (the NUL when the line ends there).
\<close>

definition read_protocol :: "string \<Rightarrow> bool \<times> char" where
  "read_protocol c0 =
     (let c = skip_spaces (drop 2 c0) in
      if char_at c 0 = CHR ''A'' then (True, char_at c 1) else (False, char_at c 0))"

text \<open>The branch of the commands that start with \<^verbatim>\<open>AT\<close>, in the order of the source.\<close>

definition elm_do_at :: "elm_globals_t \<Rightarrow> string \<Rightarrow> (elm_globals_t \<times> event list) option" where
  "elm_do_at g cmd =
     (let c = drop 2 cmd in
      if strcasecmp_eq c ''@1'' then Some (g, elm_writeln g (Some ELM_DEVICE_STRING))
      else if strcasecmp_eq c ''@2'' then Some (g, elm_writeln g (elm_device_identifier g))
      else if strcasecmp_eq c ''@3'' then
        (let g' = g\<lparr>elm_device_identifier := Some (skip_spaces (drop 2 c))\<rparr>
         in Some (g', elm_write_ok g'))
      else if strcasecmp_eq c ''AL'' then
        (let g' = g\<lparr>elm_long_message := True\<rparr> in Some (g', elm_write_ok g'))
      else if strncasecmp_eq c ''AT'' 2 \<and>
              (char_at c 2 = CHR ''0'' \<or> char_at c 2 = CHR ''1'' \<or> char_at c 2 = CHR ''2'') then
        (let g' = g\<lparr>elm_adaptive := int (of_char (char_at c 2)) - int (of_char (CHR ''0''))\<rparr>
         in Some (g', elm_write_ok g'))
      else if is_toggle c ''CAF'' then
        (let g' = g\<lparr>elm_can_auto_format := toggle_en c ''CAF''\<rparr> in Some (g', elm_write_ok g'))
      else if is_toggle c ''CFC'' then
        (let g' = g\<lparr>elm_can_flow_control := toggle_en c ''CFC''\<rparr> in Some (g', elm_write_ok g'))
      else if strncasecmp_eq c ''CF'' 2 then
        (let (r, h) = elm_read_hexa (drop 2 c);
             g' = g\<lparr>elm_filter := (elm_filter g)\<lparr>flt_pattern := h\<rparr>\<rparr>
         in Some (g', elm_write_ok g'))
      else if strncasecmp_eq c ''CM'' 2 then
        (let (r, h) = elm_read_hexa (drop 2 c);
             g' = g\<lparr>elm_filter := (elm_filter g)\<lparr>flt_mask := h\<rparr>\<rparr>
         in Some (g', elm_write_ok g'))
      else if strcasecmp_eq c ''CRA'' then
        (let g' = g\<lparr>elm_filter := \<lparr>flt_pattern = 0, flt_mask = 0\<rparr>\<rparr>
         in Some (g', elm_write_ok g'))
      else if strncasecmp_eq c ''CRA'' 3 then
        (let (f, m) = cra_loop (drop 3 c) 0 0xffffffff;
             g' = g\<lparr>elm_filter := \<lparr>flt_pattern = f, flt_mask = m\<rparr>\<rparr>
         in Some (g', elm_write_ok g'))
      else if strcasecmp_eq c ''CS'' then Some (g, elm_writeln g (Some ''STARTED''))
      else if is_toggle c ''CSM'' then
        (let g' = g\<lparr>elm_can_silent_mode := toggle_en c ''CSM''\<rparr> in Some (g', elm_write_ok g'))
      else if strcasecmp_eq c ''D'' then
        (let g' = elm_reset g in Some (g', elm_write_ok g'))
      else if is_toggle c ''D'' then
        (let g' = g\<lparr>elm_dlc := toggle_en c ''D''\<rparr> in Some (g', elm_write_ok g'))
      else if strcasecmp_eq c ''DP'' then
        Some (g, [Write ((if elm_protocol_auto g then ''Auto, '' else [])
                         @ snd (elm_get_protocol (elm_protocol g)) @ ELM_NEWLINE g)])
      else if strcasecmp_eq c ''DPN'' then
        Some (g, [Write ((if elm_protocol_auto g then ''A'' else [])
                         @ fst (elm_get_protocol (elm_protocol g)) @ ELM_NEWLINE g)])
      else if is_toggle c ''E'' then
        (let g' = g\<lparr>elm_echo := toggle_en c ''E''\<rparr> in Some (g', elm_write_ok g'))
      else if is_toggle c ''H'' then
        (let g' = g\<lparr>elm_headers := toggle_en c ''H''\<rparr> in Some (g', elm_write_ok g'))
      else if strcasecmp_eq c ''I'' then Some (g, elm_writeln g (Some ELM_VERSION_STRING))
      else if is_toggle c ''L'' then
        (let g' = g\<lparr>elm_linefeed := toggle_en c ''L''\<rparr> in Some (g', elm_write_ok g'))
      else if is_toggle c ''M'' then
        (let g' = g\<lparr>elm_memory := toggle_en c ''M''\<rparr> in Some (g', elm_write_ok g'))
      else if strcasecmp_eq c ''MA'' then Some (elm_monitor_start g)
      else if strncasecmp_eq c ''MR'' 2 then
        (let (r, h) = elm_read_hexa (drop 2 c);
             f = (flt_pattern (elm_filter g) AND 0xffffff00) + (h AND 0xff);
             m = flt_mask (elm_filter g) OR 0xff
         in Some (elm_monitor_start (g\<lparr>elm_filter := \<lparr>flt_pattern = f, flt_mask = m\<rparr>\<rparr>)))
      else if strncasecmp_eq c ''MT'' 2 then
        (let (r, h) = elm_read_hexa (drop 2 c);
             f = (flt_pattern (elm_filter g) AND 0xff) + (h AND 0xffffff00);
             m = flt_mask (elm_filter g) OR 0xffffff00
         in Some (elm_monitor_start (g\<lparr>elm_filter := \<lparr>flt_pattern = f, flt_mask = m\<rparr>\<rparr>)))
      else if is_toggle c ''R'' then Some (g, elm_write_ok g)
      else if is_toggle c ''S'' then
        (let g' = g\<lparr>elm_spaces := toggle_en c ''S''\<rparr> in Some (g', elm_write_ok g'))
      else if strncasecmp_eq c ''SP'' 2 then
        (let (a, p) = read_protocol c;
             g' = g\<lparr>elm_protocol_auto := a, elm_protocol := p\<rparr>
         in Some (g', elm_write_ok g'))
      else if strncasecmp_eq c ''ST'' 2 then
        (let (r, t) = elm_read_hexa (drop 2 c);
             g' = g\<lparr>elm_timeout := t\<rparr>
         in Some (g', elm_write_ok g'))
      else if strncasecmp_eq c ''TP'' 2 then
        (let (a, p) = read_protocol c;
             g' = g\<lparr>elm_protocol_auto := (a \<or> p = CHR ''0''), elm_protocol := p\<rparr>
         in Some (g', elm_write_ok g'))
      else if strcasecmp_eq c ''WS'' then
        (let g' = elm_reset g
         in Some (g', TaskDelay (100 div 2) # elm_writeln g' (Some ELM_VERSION_STRING)))
      else if strcasecmp_eq c ''Z'' then
        (let g' = elm_reset g
         in Some (g', TaskDelay 100 # elm_writeln g' (Some ELM_VERSION_STRING)))
      else None)"

text \<open>The sub-commands of \<^verbatim>\<open>SIMU\<close> and \<^verbatim>\<open>WIFI\<close>; \<open>None\<close> again falls to \<^verbatim>\<open>_err\<close>.\<close>

definition elm_do_simu :: "elm_globals_t \<Rightarrow> string \<Rightarrow> (elm_globals_t \<times> event list) option" where
  "elm_do_simu g cmd0 =
     (let cmd = skip_spaces (drop 4 cmd0) in
      if strncasecmp_eq cmd ''START'' 3 then Some (g, [CanSimuStart])
      else if strncasecmp_eq cmd ''STOP'' 3 then Some (g, [CanSimuStop])
      else None)"

definition elm_do_wifi ::
  "ext_results \<Rightarrow> elm_globals_t \<Rightarrow> string \<Rightarrow> (elm_globals_t \<times> event list) option" where
  "elm_do_wifi ext g cmd0 =
     (let cmd = skip_spaces (drop 4 cmd0) in
      if cmd = [] then Some (g, [Write [CHR 0x0D, CHR 0x0A], WifiStatus])
      else if strncasecmp_eq cmd ''STA'' 3 then
        (let cmd = skip_spaces (drop 3 cmd) in
         if cmd = [] then Some (g, [])
         else
           (let (cmd, ssid) = elm_read_str cmd;
                (cmd, pwd) = elm_read_str cmd
            in Some (g\<lparr>elm_previous_cmd := []\<rparr>,
                     WifiSta ssid pwd # elm_write_ok_error g (wifi_sta_ok ext))))
      else if strncasecmp_eq cmd ''AP'' 2 then
        (let cmd = skip_spaces (drop 2 cmd) in
         if cmd = [] then Some (g, [])
         else
           (let (cmd, ssid) = elm_read_str cmd;
                (cmd, pwd) = elm_read_str cmd
            in Some (g\<lparr>elm_previous_cmd := []\<rparr>,
                     WifiAp ssid pwd # elm_write_ok_error g (wifi_ap_ok ext))))
      else if strncasecmp_eq cmd ''STOP'' 4 then
        Some (g\<lparr>elm_previous_cmd := []\<rparr>, WifiStop # elm_write_ok_error g (wifi_stop_ok ext))
      else if strncasecmp_eq cmd ''SCAN'' 4 then
        Some (g, [Write [CHR 0x0D, CHR 0x0A], WifiScan])
      else None)"

text \<open>
  The body of \<^verbatim>\<open>elm_do_cmd\<close> after the leading spaces are passed over: the shell commands,
  then the \<^verbatim>\<open>ST\<close> and the \<^verbatim>\<open>AT\<close> branch, then the label \<^verbatim>\<open>_err\<close>, which answers \<^verbatim>\<open>?\<close>.
  \<^verbatim>\<open>ESP_LOG_INFO\<close> is 3.
\<close>

definition elm_dispatch ::
  "ext_results \<Rightarrow> elm_globals_t \<Rightarrow> string \<Rightarrow> elm_globals_t \<times> event list" where
  "elm_dispatch ext g cmd =
     (let err = (g, elm_writeln g (Some ELM_QUERY_PROMPT)) in
      if strcasecmp_eq cmd ''REBOOT'' \<or> strcasecmp_eq cmd ''RESTART'' then (g, [EspRestart])
      else if strcasecmp_eq cmd ''PS'' then (g, [Write [CHR 0x0D, CHR 0x0A], CmdPs])
      else if strcasecmp_eq cmd ''FREE'' then (g, [Write [CHR 0x0D, CHR 0x0A], CmdFree])
      else if strncasecmp_eq cmd ''ELOG'' 4 then
        (let c = skip_spaces (drop 4 cmd);
             (c, level) = (if c \<noteq> [] then elm_read_hexa c else (c, 3));
             c = skip_spaces c;
             tag = (if c \<noteq> [] then c else ''*'')
         in (g, [ElogOutSet, ElogLevelSet tag level]))
      else if strncasecmp_eq cmd ''SIMU'' 4 then
        (case elm_do_simu g cmd of Some r \<Rightarrow> r | None \<Rightarrow> err)
      else if strncasecmp_eq cmd ''WIFI'' 4 then
        (case elm_do_wifi ext g cmd of Some r \<Rightarrow> r | None \<Rightarrow> err)
      else if strncasecmp_eq cmd ''OTA'' 3 then
        (let c = skip_spaces (drop 3 cmd) in
         if c = [] then (g, [OtaInfo]) else (g, [OtaUpdate c]))
      else if strncasecmp_eq cmd ''ST'' 2 then
        (case elm_do_st g cmd of Some r \<Rightarrow> r | None \<Rightarrow> err)
      else if strncasecmp_eq cmd ''AT'' 2 then
        (case elm_do_at g cmd of Some r \<Rightarrow> r | None \<Rightarrow> err)
      else err)"

text \<open>
  \<^verbatim>\<open>elm_do_cmd\<close>: an empty line takes the stored line as the command and stores nothing; any
  other line is copied to \<^verbatim>\<open>G.elm_previous_cmd\<close> first. (The line buffer of \<^verbatim>\<open>elm_do\<close> holds
  at most 127 characters, so the copy fits the 128 bytes; and its pointer is never NULL.)
\<close>

definition elm_do_cmd ::
  "ext_results \<Rightarrow> elm_globals_t \<Rightarrow> string \<Rightarrow> elm_globals_t \<times> event list" where
  "elm_do_cmd ext g cmd0 =
     (let cmd = (if cmd0 = [] then elm_previous_cmd g else cmd0);
          g = (if cmd0 = [] then g else g\<lparr>elm_previous_cmd := cmd0\<rparr>)
      in elm_dispatch ext g (skip_spaces cmd))"

subsection \<open>What a command may do to the stored line and the tables\<close>

text \<open>
  Two predicates for the proofs about the dispatcher as a whole. A step from \<open>g\<close> to \<open>g'\<close>
  keeps the session when the stored line is unchanged or emptied and well-formed tables
  stay well formed; a branch keeps it when the state it returns, if any, does.
\<close>

definition keeps_session :: "elm_globals_t \<Rightarrow> elm_globals_t \<Rightarrow> bool" where
  "keeps_session g g' =
     ((elm_previous_cmd g' = elm_previous_cmd g \<or> elm_previous_cmd g' = []) \<and>
      (filters_inv g \<longrightarrow> filters_inv g'))"

definition branch_keeps ::
  "elm_globals_t \<Rightarrow> (elm_globals_t \<times> event list) option \<Rightarrow> bool" where
  "branch_keeps g r = (case r of None \<Rightarrow> True | Some (g', ev) \<Rightarrow> keeps_session g g')"

subsection \<open>Example states\<close>

text \<open>
  Concrete answers of the network code, a table with one rule, and a session with one pass
  rule and one block rule; the theorems below are instantiated at them.
\<close>

definition zero_ext :: ext_results where
  "zero_ext = \<lparr>wifi_sta_ok = False, wifi_ap_ok = False, wifi_stop_ok = False\<rparr>"

definition table_example :: "elm_filter_t list" where
  "table_example = \<lparr>flt_pattern = 0x700, flt_mask = 0x700\<rparr> # replicate 99 zero_filter"

definition filter_example :: elm_globals_t where
  "filter_example =
     (elm_zeroed ''bt'')
       \<lparr>pass_filter := table_example,
        block_filter := \<lparr>flt_pattern = 0x7E9, flt_mask = 0x7FF\<rparr> # replicate 99 zero_filter\<rparr>"

subsection \<open>The lines that empty the stored line\<close>

text \<open>
  The statement about the empty line needs to say after which lines \<^verbatim>\<open>G.elm_previous_cmd\<close>
  is empty. The three predicates say it on the text of the line alone (leading spaces
  passed over, letters of either case); they do not mention the dispatcher, and that the
  dispatcher empties the stored line on these lines and on no other is proved below.

  A reset line is \<^verbatim>\<open>ATZ\<close>, \<^verbatim>\<open>ATWS\<close> or \<^verbatim>\<open>ATD\<close> and nothing more. A network line is \<^verbatim>\<open>WIFI\<close>,
  spaces or none, and then \<^verbatim>\<open>STOP\<close>, or \<^verbatim>\<open>STA\<close> or \<^verbatim>\<open>AP\<close> with something other than spaces
  somewhere after it. A session's stored line is in order when it is no such line.
\<close>

definition is_reset_line :: "string \<Rightarrow> bool" where
  "is_reset_line cmd =
     (map c_tolower cmd = ''atz'' \<or> map c_tolower cmd = ''atws'' \<or> map c_tolower cmd = ''atd'')"

definition is_network_line :: "string \<Rightarrow> bool" where
  "is_network_line cmd =
     (map c_tolower (take 4 cmd) = ''wifi'' \<and>
      (let r = skip_spaces (drop 4 cmd) in
       map c_tolower (take 4 r) = ''stop'' \<or>
       (map c_tolower (take 3 r) = ''sta'' \<and> skip_spaces (drop 3 r) \<noteq> []) \<or>
       (map c_tolower (take 2 r) = ''ap'' \<and> skip_spaces (drop 2 r) \<noteq> [])))"

definition empties_stored_line :: "string \<Rightarrow> bool" where
  "empties_stored_line cmd = (is_reset_line cmd \<or> is_network_line cmd)"

definition stored_line_ok :: "elm_globals_t \<Rightarrow> bool" where
  "stored_line_ok g = (\<not> empties_stored_line (skip_spaces (elm_previous_cmd g)))"

text \<open>
  For the proofs: a result keeps the stored line of \<open>g\<close>, and a branch does when the
  result it returns, if any, does.
\<close>

definition line_kept :: "elm_globals_t \<Rightarrow> elm_globals_t \<times> event list \<Rightarrow> bool" where
  "line_kept g r = (elm_previous_cmd (fst r) = elm_previous_cmd g)"

definition branch_line_kept ::
  "elm_globals_t \<Rightarrow> (elm_globals_t \<times> event list) option \<Rightarrow> bool" where
  "branch_line_kept g r = (case r of None \<Rightarrow> True | Some a \<Rightarrow> line_kept g a)"


section \<open>Bus ingestion: the per-identifier rate limiter (can.c)\<close>

text \<open>
  \<^verbatim>\<open>static const uint32_t can_id[] = VEHICLEBUS_ID;\<close> the allow-list, in the order of the
  source, with \<^verbatim>\<open>can_id_count\<close> its number of entries and
  \<^verbatim>\<open>can_id_delay_us = 1000000 / 11\<close> the minimum interval in microseconds.
\<close>

definition can_id :: "32 word list" where
  "can_id =
     [0x00C, 0x04F, 0x082, 0x102, 0x103, 0x108, 0x118, 0x123,
      0x126, 0x129, 0x132, 0x13D, 0x142, 0x154, 0x186, 0x1A5,
      0x1D4, 0x1D5, 0x1D8, 0x201, 0x20A, 0x20C, 0x212, 0x214,
      0x215, 0x217, 0x21D, 0x221, 0x224, 0x228, 0x229, 0x22E,
      0x23D, 0x241, 0x243, 0x244, 0x247, 0x249, 0x252, 0x257,
      0x25D, 0x261, 0x263, 0x264, 0x266, 0x267, 0x268, 0x281,
      0x282, 0x284, 0x287, 0x288, 0x292, 0x293, 0x29D, 0x2A8,
      0x2B3, 0x2B4, 0x2B6, 0x2C1, 0x2C4, 0x2D2, 0x2E1, 0x2E5,
      0x2F1, 0x2F3, 0x300, 0x301, 0x309, 0x312, 0x313, 0x315,
      0x318, 0x31C, 0x31D, 0x320, 0x321, 0x32C, 0x332, 0x333,
      0x334, 0x335, 0x336, 0x33A, 0x352, 0x376, 0x381, 0x383,
      0x393, 0x395, 0x396, 0x399, 0x3A1, 0x3B2, 0x3B3, 0x3B6,
      0x3BB, 0x3C2, 0x3C3, 0x3D2, 0x3D8, 0x3D9, 0x3E2, 0x3E3,
      0x3E9, 0x3F2, 0x3F5, 0x3FE, 0x401, 0x405, 0x42A, 0x43D,
      0x51E, 0x528, 0x541, 0x556, 0x557, 0x5D5, 0x5D7, 0x628,
      0x629, 0x656, 0x743, 0x757, 0x75D, 0x7AA, 0x7D5, 0x7FF]"

definition can_id_count :: nat where
  "can_id_count = length can_id"

definition can_id_delay_us :: "32 word" where
  "can_id_delay_us = 1000000 div 11"

text \<open>
  \<^verbatim>\<open>_can_filter_id(id, ts)\<close> (a leading underscore is not an Isabelle name). The table
  \<^verbatim>\<open>can_id_last_us\<close> is the state: the function takes it and returns it with the flag. The
  subtraction \<^verbatim>\<open>ts - can_id_last_us[i]\<close> is on \<^verbatim>\<open>uint32_t\<close> and wraps.
\<close>

function can_filter_id_from ::
  "32 word list \<Rightarrow> 32 word \<Rightarrow> 32 word \<Rightarrow> nat \<Rightarrow> bool \<times> 32 word list" where
  "can_filter_id_from can_id_last_us ident ts i =
     (if i < can_id_count then
        (if ident \<noteq> can_id ! i then can_filter_id_from can_id_last_us ident ts (Suc i)
         else if ts - can_id_last_us ! i \<ge> can_id_delay_us
         then (True, can_id_last_us[i := ts])
         else (False, can_id_last_us))
      else (False, can_id_last_us))"
  by pat_completeness auto
termination
  by (relation "measure (\<lambda>(l, ident, ts, i). can_id_count - i)") auto

definition can_filter_id :: "32 word list \<Rightarrow> 32 word \<Rightarrow> 32 word \<Rightarrow> bool \<times> 32 word list" where
  "can_filter_id can_id_last_us ident ts = can_filter_id_from can_id_last_us ident ts 0"

text \<open>
  The table after \<^verbatim>\<open>can_init\<close>: \<^verbatim>\<open>memset(can_id_last_us, 0, sizeof(can_id_last_us))\<close>.
\<close>

definition can_id_last_us_init :: "32 word list" where
  "can_id_last_us_init = replicate can_id_count 0"

text \<open>
  The receive path of \<^verbatim>\<open>can_task\<close> for one frame: the 64-bit time of reception is cut to
  32 bits for the limiter, and \<^verbatim>\<open>_can_raise\<close>, which offers the frame to every subscriber,
  is called exactly when the limiter returns true. The result is that flag and the table.
\<close>

definition can_task_rx :: "32 word list \<Rightarrow> 32 word \<Rightarrow> 64 word \<Rightarrow> bool \<times> 32 word list" where
  "can_task_rx can_id_last_us ident ts = can_filter_id can_id_last_us ident (ucast ts)"

text \<open>The slot of an identifier in the allow-list: the index of its first occurrence.\<close>

fun index_of :: "'a list \<Rightarrow> 'a \<Rightarrow> nat" where
  "index_of [] x = 0"
| "index_of (y # ys) x = (if x = y then 0 else Suc (index_of ys x))"


section \<open>Buffered transport over the radio serial link (bt.c)\<close>

subsection \<open>The platform's byte ring\<close>

text \<open>
  The rings are FreeRTOS byte buffers (\<^verbatim>\<open>RINGBUF_TYPE_BYTEBUF\<close>), platform code that the
  transport calls. The model is a bounded FIFO of bytes in a storage of \<open>rb_size\<close> bytes:
  \<open>rb_data\<close> is the stored bytes, oldest first, and \<open>rb_read\<close> is the place of the oldest
  byte in the storage, from where the stored bytes run on, over the end of the storage
  to its start. The calls the transport makes:
  \<^item> \<^verbatim>\<open>xRingbufferSend(r, buf, count, 0)\<close> copies all \<open>count\<close> bytes when they fit the free
    space and returns true; with no ticks to wait it copies nothing otherwise and returns
    false;
  \<^item> \<^verbatim>\<open>xRingbufferReceiveUpTo(r, &len, ticks, max)\<close> hands out the oldest bytes, or NULL
    when the ring is empty. It hands out one piece of the storage: at most \<open>max\<close> bytes,
    and no more than lie between the oldest byte and the end of the storage, so that of
    stored bytes that run over the end only the part before it is handed out, and the
    rest by the next call. The transport returns the item with \<^verbatim>\<open>vRingbufferReturnItem\<close>
    before it touches the ring again, so the model removes the bytes at once;
  \<^item> \<^verbatim>\<open>xRingbufferGetCurFreeSize\<close> is the free space.
\<close>

record ringbuf =
  rb_size :: nat
  rb_read :: nat
  rb_data :: "8 word list"

definition xRingbufferCreate :: "nat \<Rightarrow> ringbuf" where
  "xRingbufferCreate n = \<lparr>rb_size = n, rb_read = 0, rb_data = []\<rparr>"

definition xRingbufferGetCurFreeSize :: "ringbuf \<Rightarrow> nat" where
  "xRingbufferGetCurFreeSize r = rb_size r - length (rb_data r)"

definition xRingbufferSend :: "ringbuf \<Rightarrow> 8 word list \<Rightarrow> bool \<times> ringbuf" where
  "xRingbufferSend r buf =
     (if length buf \<le> xRingbufferGetCurFreeSize r
      then (True, r\<lparr>rb_data := rb_data r @ buf\<rparr>)
      else (False, r))"

definition xRingbufferReceiveUpTo :: "ringbuf \<Rightarrow> nat \<Rightarrow> 8 word list option \<times> ringbuf" where
  "xRingbufferReceiveUpTo r n =
     (if rb_data r = [] \<or> n = 0 then (None, r)
      else
        (let k = min n (min (length (rb_data r)) (rb_size r - rb_read r))
         in (Some (take k (rb_data r)),
             r\<lparr>rb_data := drop k (rb_data r),
               rb_read := (rb_read r + k) mod rb_size r\<rparr>)))"

subsection \<open>The transport state\<close>

definition BT_SPP_RINGBUF_RX_SIZE :: nat where
  "BT_SPP_RINGBUF_RX_SIZE = 100"

definition BT_SPP_RINGBUF_TX_SIZE :: nat where
  "BT_SPP_RINGBUF_TX_SIZE = 10 * 1024"

text \<open>
  \<^verbatim>\<open>#define BT_SPP_DATA_MAX_SIZE ESP_SPP_MAX_MTU // (3 * 330)\<close>: the platform's constant, with
  the value the source notes beside it.
\<close>

definition BT_SPP_DATA_MAX_SIZE :: nat where
  "BT_SPP_DATA_MAX_SIZE = 3 * 330"

text \<open>
  The file's static variables. A ring handle is an option, \<open>None\<close> being NULL; the two
  callbacks are kept as the flag "is registered". \<^verbatim>\<open>spp_tx_ticksToWait\<close> is the constant
  1 and only bounds the wait of the drain.
\<close>

record bt_state =
  spp_handle :: "32 word"
  spp_rx_buffer :: "ringbuf option"
  spp_tx_buffer :: "ringbuf option"
  spp_open_cb :: bool
  spp_close_cb :: bool
  spp_size :: "32 word"
  spp_stat_us :: "32 word"
  spp_last_us :: "32 word"
  spp_rx_buffer_min_free :: int
  spp_tx_buffer_min_free :: int
  spp_writing :: bool
  spp_second_connexion :: bool

text \<open>
  What a call does outside the state: the calls into the link stack and the callbacks.
  \<open>Abort\<close> is the platform's assertion on a NULL ring handle. The logging macros are left
  out.
\<close>

datatype bt_event =
    EspSppDisconnect "32 word"
  | EspSppWrite "32 word" "8 word list"
  | OpenCb "32 word"
  | CloseCb "32 word"
  | Abort

datatype bt_error = EBADF | Aborted

text \<open>
  What the platform answers during one call: whether the two ring allocations of \<^verbatim>\<open>_open\<close>
  succeed, the value of \<^verbatim>\<open>esp_timer_get_time()\<close> (signed 64-bit microseconds, here an
  integer) where the caller reads it, whether \<^verbatim>\<open>esp_spp_write\<close> returns \<^verbatim>\<open>ESP_OK\<close>, and the
  time read after a successful send. One call of \<^verbatim>\<open>bt_write\<close> reaches \<^verbatim>\<open>esp_spp_write\<close> at
  most once (a second drain in the same call runs only after the first found the ring
  empty), so one answer is enough.
\<close>

record bt_env =
  alloc_rx_ok :: bool
  alloc_tx_ok :: bool
  now :: int
  spp_write_ok :: bool
  now_sent :: int

text \<open>The bytes a list of events handed to \<^verbatim>\<open>esp_spp_write\<close>, in order.\<close>

fun sent :: "bt_event list \<Rightarrow> 8 word list" where
  "sent [] = []"
| "sent (EspSppWrite h d # es) = d @ sent es"
| "sent (e # es) = sent es"

subsection \<open>Open and close\<close>

text \<open>
  \<^verbatim>\<open>_open(handle)\<close>, called on \<^verbatim>\<open>ESP_SPP_SRV_OPEN_EVT\<close> (the source names \<^verbatim>\<open>_open\<close>, \<^verbatim>\<open>_close\<close>
  and \<^verbatim>\<open>_write\<close> carry the prefix \<open>spp\<close> here, a leading underscore not being an Isabelle
  name).
\<close>

definition spp_open :: "bt_env \<Rightarrow> bt_state \<Rightarrow> 32 word \<Rightarrow> bt_state \<times> bt_event list" where
  "spp_open env s handle =
     (if spp_handle s \<noteq> 0 then
        (s\<lparr>spp_second_connexion := True\<rparr>, [EspSppDisconnect handle])
      else
        (let rx = (if alloc_rx_ok env then Some (xRingbufferCreate BT_SPP_RINGBUF_RX_SIZE) else None);
             tx = (if alloc_tx_ok env then Some (xRingbufferCreate BT_SPP_RINGBUF_TX_SIZE) else None)
         in if rx = None \<or> tx = None then
              (s\<lparr>spp_handle := 0, spp_rx_buffer := None, spp_tx_buffer := None\<rparr>, [])
            else
              (s\<lparr>spp_rx_buffer := rx,
                 spp_tx_buffer := tx,
                 spp_handle := handle,
                 spp_rx_buffer_min_free := int BT_SPP_RINGBUF_RX_SIZE,
                 spp_tx_buffer_min_free := int BT_SPP_RINGBUF_TX_SIZE,
                 spp_writing := False,
                 spp_size := 0,
                 spp_stat_us := word_of_int (now env)\<rparr>,
               if spp_open_cb s then [OpenCb handle] else [])))"

text \<open>
  \<^verbatim>\<open>_close(handle)\<close>, called on \<^verbatim>\<open>ESP_SPP_CLOSE_EVT\<close>. The third component is the value the
  call leaves in \<^verbatim>\<open>errno\<close>, when it sets it.
\<close>

definition spp_close ::
  "bt_state \<Rightarrow> 32 word \<Rightarrow> bt_state \<times> bt_event list \<times> bt_error option" where
  "spp_close s handle =
     (if handle \<noteq> spp_handle s then
        (if spp_second_connexion s then (s\<lparr>spp_second_connexion := False\<rparr>, [], None)
         else (s, [], Some EBADF))
      else
        (s\<lparr>spp_rx_buffer := None, spp_tx_buffer := None, spp_handle := 0\<rparr>,
         (if spp_close_cb s then [CloseCb handle] else []), None))"

subsection \<open>Drain and write\<close>

text \<open>
  \<^verbatim>\<open>_write(handle)\<close>, the drain: up to \<^verbatim>\<open>BT_SPP_DATA_MAX_SIZE\<close> bytes leave the transmit ring
  and go to \<^verbatim>\<open>esp_spp_write\<close>. When the send fails the call returns with the bytes gone from
  the ring and the flag as it was; when it succeeds the time is recorded and the
  statistics are kept; when the ring gave nothing the flag \<^verbatim>\<open>spp_writing\<close> is cleared.
\<close>

definition spp_write :: "bt_env \<Rightarrow> bt_state \<Rightarrow> 32 word \<Rightarrow> bt_state \<times> bt_event list" where
  "spp_write env s handle =
     (if handle \<noteq> spp_handle s then (s, [])
      else
        (case spp_tx_buffer s of
           None \<Rightarrow> (s, [Abort])
         | Some tx \<Rightarrow>
             (case xRingbufferReceiveUpTo tx BT_SPP_DATA_MAX_SIZE of
                (Some data, tx') \<Rightarrow>
                  (let s1 = s\<lparr>spp_tx_buffer := Some tx'\<rparr>;
                       ev = [EspSppWrite handle data]
                   in if \<not> spp_write_ok env then (s1, ev)
                      else
                        (let last = (word_of_int (now_sent env) :: 32 word);
                             s2 = s1\<lparr>spp_last_us := last,
                                     spp_size := spp_size s1 + of_nat (length data)\<rparr>;
                             time_us = last - spp_stat_us s2
                         in if time_us \<ge> 10 * 1000000
                            then (s2\<lparr>spp_size := 0, spp_stat_us := last\<rparr>, ev)
                            else (s2, ev)))
              | (None, tx') \<Rightarrow> (s\<lparr>spp_writing := False\<rparr>, []))))"

text \<open>
  \<^verbatim>\<open>bt_write(handle, buf, count)\<close>; \<open>buf\<close> is the \<open>count\<close> bytes, so the empty list covers
  \<^verbatim>\<open>buf == NULL || count == 0\<close>. \<open>Inl EBADF\<close> is the return of \<^verbatim>\<open>-1\<close> with \<^verbatim>\<open>errno = EBADF\<close>.
  In the stall test \<^verbatim>\<open>esp_timer_get_time() - spp_last_us\<close> the 32-bit \<^verbatim>\<open>spp_last_us\<close> is
  promoted to the 64-bit signed type of the time, so the difference is taken on integers.
\<close>

definition bt_write ::
  "bt_env \<Rightarrow> bt_state \<Rightarrow> 32 word \<Rightarrow> 8 word list
     \<Rightarrow> (bt_error + nat) \<times> bt_state \<times> bt_event list" where
  "bt_write env s handle buf =
     (if buf = [] then (Inr 0, s, [])
      else if handle \<noteq> spp_handle s then (Inl EBADF, s, [])
      else
        (case spp_tx_buffer s of
           None \<Rightarrow> (Inl Aborted, s, [Abort])
         | Some tx \<Rightarrow>
             (let (done, tx') = xRingbufferSend tx buf in
              if \<not> done then
                (let (s1, e1) =
                       (if spp_writing s \<and> now env - uint (spp_last_us s) > 5 * 1000000
                        then spp_write env s handle else (s, []));
                     (s2, e2) =
                       (if \<not> spp_writing s1
                        then spp_write env (s1\<lparr>spp_writing := True\<rparr>) handle else (s1, []))
                 in (Inr 0, s2, e1 @ e2))
              else
                (let s1 = s\<lparr>spp_tx_buffer := Some tx'\<rparr>;
                     free = int (xRingbufferGetCurFreeSize tx');
                     s1 = (if spp_tx_buffer_min_free s1 > free
                           then s1\<lparr>spp_tx_buffer_min_free := free\<rparr> else s1);
                     (s2, e2) =
                       (if \<not> spp_writing s1
                        then spp_write env (s1\<lparr>spp_writing := True\<rparr>) handle else (s1, []))
                 in (Inr (length buf), s2, e2)))))"

subsection \<open>Example transport states\<close>

text \<open>
  An open connection with handle 129 whose transmit ring holds 10238 of its 10240 bytes,
  the oldest at the start of the storage, with a drain believed in flight since
  microsecond 1000; the same with no drain in flight; the same with the oldest byte at
  place 10000, so that the stored bytes run over the end of the storage; and platform
  answers at second 7.
\<close>

definition bt_full :: bt_state where
  "bt_full =
     \<lparr>spp_handle = 129,
      spp_rx_buffer = Some (xRingbufferCreate BT_SPP_RINGBUF_RX_SIZE),
      spp_tx_buffer =
        Some \<lparr>rb_size = BT_SPP_RINGBUF_TX_SIZE, rb_read = 0, rb_data = replicate 10238 0x41\<rparr>,
      spp_open_cb = True, spp_close_cb = True,
      spp_size = 0, spp_stat_us = 0, spp_last_us = 1000,
      spp_rx_buffer_min_free = 100, spp_tx_buffer_min_free = 2,
      spp_writing = True, spp_second_connexion = False\<rparr>"

definition bt_idle_full :: bt_state where
  "bt_idle_full = bt_full\<lparr>spp_writing := False\<rparr>"

definition bt_idle_wrapped :: bt_state where
  "bt_idle_wrapped =
     bt_idle_full
       \<lparr>spp_tx_buffer :=
          Some \<lparr>rb_size = BT_SPP_RINGBUF_TX_SIZE, rb_read = 10000,
                rb_data = replicate 10238 0x41\<rparr>\<rparr>"

definition env_7s :: bt_env where
  "env_7s = \<lparr>alloc_rx_ok = True, alloc_tx_ok = True, now = 7000000,
            spp_write_ok = True, now_sent = 7000100\<rparr>"

section \<open>The monitor task (elm.c)\<close>

text \<open>
  The frame types of can.h: \<^verbatim>\<open>can_message_t\<close> with the fields the monitor reads
  (\<open>identifier\<close> is a keyword, so the fields carry the prefix \<open>m\<close>), and
  \<^verbatim>\<open>can_message_timestamp_t\<close> with the 64-bit time of reception. The data array has 8
  bytes: \<open>m_data\<close> is a list of length 8.
\<close>

record can_message_t =
  m_identifier :: "32 word"
  m_data_length_code :: "8 word"
  m_data :: "8 word list"

record can_message_timestamp_t =
  msg :: can_message_t
  timestamp :: "64 word"

text \<open>
  \<^verbatim>\<open>%0nX\<close> of \<^verbatim>\<open>printf\<close> for a 32-bit value: capital hexadecimal digits without leading
  zeros, filled with zeros on the left up to \<open>n\<close> digits.
\<close>

definition hex_char :: "32 word \<Rightarrow> char" where
  "hex_char d = ''0123456789ABCDEF'' ! unat (d AND 0xF)"

definition printf_0nX :: "nat \<Rightarrow> 32 word \<Rightarrow> string" where
  "printf_0nX n w =
     (let digits = map (\<lambda>k. hex_char (drop_bit (4 * k) w)) [7, 6, 5, 4, 3, 2, 1, 0];
          s = dropWhile (\<lambda>c. c = CHR ''0'') digits
      in replicate (n - length s) (CHR ''0'') @ s)"

text \<open>
  The byte \<^verbatim>\<open>msg->data[i]\<close>. The loop of \<^verbatim>\<open>_elm_write_can\<close> runs \<open>i\<close> up to the length code,
  an 8-bit number that the function does not compare with 8: from \<open>i = 8\<close> on it reads
  the memory behind the array, whose bytes \<open>behind 0\<close>, \<open>behind 1\<close>, ... are an input.
\<close>

definition data_at :: "can_message_t \<Rightarrow> (nat \<Rightarrow> 8 word) \<Rightarrow> nat \<Rightarrow> 8 word" where
  "data_at m behind i = (if i < 8 then m_data m ! i else behind (i - 8))"

text \<open>
  \<^verbatim>\<open>_elm_write_can\<close>: the line written for a frame. The identifier with \<^verbatim>\<open>%03X\<close> when headers
  are on, the length with \<^verbatim>\<open>%02X\<close> when DLC display is on, then \<^verbatim>\<open>data[i]\<close> with \<^verbatim>\<open>%02X\<close> for
  every \<open>i\<close> below \<^verbatim>\<open>data_length_code\<close>, each followed by a space when spaces are on, and
  the newline. The value the source returns is whether \<^verbatim>\<open>fflush\<close> succeeded, which the
  output stream decides; it is an input of the loop below.
\<close>

definition elm_write_can ::
  "elm_globals_t \<Rightarrow> can_message_t \<Rightarrow> (nat \<Rightarrow> 8 word) \<Rightarrow> string" where
  "elm_write_can g m behind =
     (let sp = (if elm_spaces g then '' '' else [])
      in (if elm_headers g then printf_0nX 3 (m_identifier m) @ sp else [])
         @ (if elm_dlc g then printf_0nX 2 (ucast (m_data_length_code m)) @ sp else [])
         @ concat (map (\<lambda>i. printf_0nX 2 (ucast (data_at m behind i)) @ sp)
                    [0 ..< unat (m_data_length_code m)])
         @ ELM_NEWLINE g)"

text \<open>
  The local variables of \<^verbatim>\<open>elm_monitor_task\<close>, and what one turn of its loop takes from
  outside: the value of \<^verbatim>\<open>G.elm_monitor\<close> at the loop test (the session task clears it to
  stop the monitor; it changes nothing else of the session while the monitor runs), the
  frame \<^verbatim>\<open>xRingbufferReceive\<close> returned within its 100 ms, if any, the memory behind the
  data array of that frame, the time read after it, cut to 32 bits, and whether the write
  of a frame line succeeds.
\<close>

record mon_state =
  stat_us :: "32 word"
  last_us :: "32 word"
  count :: "32 word"

record mon_input =
  monitor_on :: bool
  rx_msg :: "can_message_timestamp_t option"
  mem_behind :: "nat \<Rightarrow> 8 word"
  us_read :: "32 word"
  write_ok :: bool

datatype mon_exit = NoBuffer | Stopped | WriteError | Timeout

text \<open>Whether the frame of a turn, if there is one, passes the filter.\<close>

definition frame_passes :: "elm_globals_t \<Rightarrow> mon_input \<Rightarrow> bool" where
  "frame_passes g i =
     (case rx_msg i of
        None \<Rightarrow> False
      | Some m \<Rightarrow> elm_filter_test g (m_identifier (msg m)) (ucast (timestamp m)))"

text \<open>
  The loop \<^verbatim>\<open>while (G.elm_monitor) { ... }\<close>, one turn per input. The result is how the loop
  was left (\<open>None\<close>: the inputs are used up and the task is still in the loop), the local
  variables and the events so far. \<^verbatim>\<open>G.elm_timeout * 1000\<close> is a 32-bit product.
\<close>

fun elm_monitor_loop ::
  "elm_globals_t \<Rightarrow> mon_state \<Rightarrow> mon_input list \<Rightarrow> event list
     \<Rightarrow> mon_exit option \<times> mon_state \<times> event list" where
  "elm_monitor_loop g st [] out = (None, st, out)"
| "elm_monitor_loop g st (i # inputs) out =
     (if \<not> monitor_on i then (Some Stopped, st, out)
      else
        (let (st1, out1, brk) =
               (case rx_msg i of
                  Some m \<Rightarrow>
                    if elm_filter_test g (m_identifier (msg m)) (ucast (timestamp m))
                    then (st\<lparr>last_us := ucast (timestamp m), count := count st + 1\<rparr>,
                          out @ [Write (elm_write_can g (msg m) (mem_behind i))],
                          \<not> write_ok i)
                    else (st, out, False)
                | None \<Rightarrow> (st, out, False))
         in if brk then (Some WriteError, st1, out1)
            else if us_read i - last_us st1 \<ge> elm_timeout g * 1000
            then (Some Timeout, st1, out1 @ [Write (ELM_NODATA_PROMPT @ ELM_NEWLINE g)])
            else
              (let time_us = us_read i - stat_us st1;
                   st2 = (if time_us \<ge> 10 * 1000000
                          then st1\<lparr>count := 0, stat_us := us_read i\<rparr> else st1)
               in elm_monitor_loop g st2 inputs out1)))"

text \<open>
  \<^verbatim>\<open>elm_monitor_task\<close>: the subscription is created (\<open>buf_ok\<close>: \<^verbatim>\<open>can_ringbuf_new\<close> did not
  return NULL), both times start at the time read at the start, the loop runs, and on
  leaving it the task clears \<^verbatim>\<open>G.elm_monitor\<close> and \<^verbatim>\<open>G.elm_monitor_task_run\<close>.
\<close>

definition elm_monitor_task ::
  "bool \<Rightarrow> 32 word \<Rightarrow> elm_globals_t \<Rightarrow> mon_input list
     \<Rightarrow> mon_exit option \<times> elm_globals_t \<times> event list" where
  "elm_monitor_task buf_ok start g inputs =
     (if \<not> buf_ok
      then (Some NoBuffer, g\<lparr>elm_monitor := False, elm_monitor_task_run := False\<rparr>, [])
      else
        (case elm_monitor_loop g \<lparr>stat_us = start, last_us = start, count = 0\<rparr> inputs [] of
           (None, st, out) \<Rightarrow> (None, g\<lparr>elm_monitor_task_run := True\<rparr>, out)
         | (Some e, st, out) \<Rightarrow>
             (Some e, g\<lparr>elm_monitor := False, elm_monitor_task_run := False\<rparr>, out)))"

text \<open>
  The time the idle test of a turn measures from: the timestamp of the last frame that
  passed the filter in the turns so far, or the start value when none has.
\<close>

fun last_pass :: "elm_globals_t \<Rightarrow> 32 word \<Rightarrow> mon_input list \<Rightarrow> 32 word" where
  "last_pass g l [] = l"
| "last_pass g l (i # inputs) =
     last_pass g
       (case rx_msg i of
          Some m \<Rightarrow> if frame_passes g i then ucast (timestamp m) else l
        | None \<Rightarrow> l)
       inputs"

subsection \<open>Example monitor run\<close>

text \<open>
  A session at its defaults with the monitor on; a frame of identifier \<open>0x132\<close> received at
  1.2 s; turns without a frame at 1.3 s and at 6.3 s.
\<close>

definition mon_session :: elm_globals_t where
  "mon_session = (elm_session_start ''bt'')\<lparr>elm_monitor := True\<rparr>"

definition frame_132 :: can_message_timestamp_t where
  "frame_132 =
     \<lparr>msg = \<lparr>m_identifier = 0x132, m_data_length_code = 2, m_data = [0x40, 0x9C, 0, 0, 0, 0, 0, 0]\<rparr>,
      timestamp = 1200000\<rparr>"

definition turn_frame :: mon_input where
  "turn_frame = \<lparr>monitor_on = True, rx_msg = Some frame_132,
                  mem_behind = (\<lambda>k. 0), us_read = 1200100, write_ok = True\<rparr>"

definition turn_idle :: "32 word \<Rightarrow> mon_input" where
  "turn_idle t =
     \<lparr>monitor_on = True, rx_msg = None, mem_behind = (\<lambda>k. 0), us_read = t, write_ok = True\<rparr>"

section \<open>Proofs: the interpreter\<close>

subsection \<open>The table loops as scans of the stored rules\<close>

lemma pass_loop_scan:
  "length flt = ELM_ST_FILTER_LEN \<Longrightarrow> i \<le> ELM_ST_FILTER_LEN \<Longrightarrow>
   pass_loop flt ident i = (\<exists>r \<in> set (stored_rules (drop i flt)). id_matches ident r)"
proof (induction flt ident i rule: pass_loop.induct)
  case (1 flt ident i)
  show ?case
  proof (cases "i < ELM_ST_FILTER_LEN")
    case True
    then have d: "drop i flt = flt ! i # drop (Suc i) flt"
      using "1.prems" by (simp add: Cons_nth_drop_Suc)
    show ?thesis
      using True "1.IH" "1.prems" unfolding d
      by (subst pass_loop.simps) (auto simp: stored_rules_def id_matches_def)
  next
    case False
    then show ?thesis
      using "1.prems" by (subst pass_loop.simps) (simp add: stored_rules_def)
  qed
qed

lemma block_loop_scan:
  "length flt = ELM_ST_FILTER_LEN \<Longrightarrow> i \<le> ELM_ST_FILTER_LEN \<Longrightarrow>
   block_loop flt ident i = (\<not> (\<exists>r \<in> set (stored_rules (drop i flt)). id_matches ident r))"
proof (induction flt ident i rule: block_loop.induct)
  case (1 flt ident i)
  show ?case
  proof (cases "i < ELM_ST_FILTER_LEN")
    case True
    then have d: "drop i flt = flt ! i # drop (Suc i) flt"
      using "1.prems" by (simp add: Cons_nth_drop_Suc)
    show ?thesis
      using True "1.IH" "1.prems" unfolding d
      by (subst block_loop.simps) (auto simp: stored_rules_def id_matches_def)
  next
    case False
    then show ?thesis
      using "1.prems" by (subst block_loop.simps) (simp add: stored_rules_def)
  qed
qed

lemma first_slot_free:
  "length flt = ELM_ST_FILTER_LEN \<Longrightarrow> (flt_mask (flt ! 0) = 0) = (stored_rules flt = [])"
  by (cases flt) (auto simp: stored_rules_def ELM_ST_FILTER_LEN_def)

lemma stored_rules_drop_free:
  "i < length flt \<Longrightarrow> flt_mask (flt ! i) = 0 \<Longrightarrow> stored_rules (drop i flt) = []"
  by (simp add: stored_rules_def Cons_nth_drop_Suc [symmetric])

lemma stored_rules_drop_used:
  "i < length flt \<Longrightarrow> flt_mask (flt ! i) \<noteq> 0 \<Longrightarrow>
   stored_rules (drop i flt) = flt ! i # stored_rules (drop (Suc i) flt)"
  by (simp add: stored_rules_def Cons_nth_drop_Suc [symmetric])

lemma elm_filter_clear_from_eq:
  "length flt = ELM_ST_FILTER_LEN \<Longrightarrow> i \<le> ELM_ST_FILTER_LEN \<Longrightarrow>
   elm_filter_clear_from flt i =
     take i flt @ replicate (length (stored_rules (drop i flt))) zero_filter
       @ drop (i + length (stored_rules (drop i flt))) flt"
proof (induction flt i rule: elm_filter_clear_from.induct)
  case (1 flt i)
  show ?case
  proof (cases "i < ELM_ST_FILTER_LEN")
    case False
    then show ?thesis
      using "1.prems" by (subst elm_filter_clear_from.simps) (simp add: stored_rules_def)
  next
    case True
    then have il: "i < length flt" using "1.prems" by simp
    show ?thesis
    proof (cases "flt_mask (flt ! i) = 0")
      case True
      then show ?thesis
        using il \<open>i < ELM_ST_FILTER_LEN\<close>
        by (subst elm_filter_clear_from.simps) (simp add: stored_rules_drop_free)
    next
      case False
      have "elm_filter_clear_from flt i = elm_filter_clear_from (flt[i := zero_filter]) (Suc i)"
        using False \<open>i < ELM_ST_FILTER_LEN\<close> by (subst elm_filter_clear_from.simps) simp
      also have "\<dots> = take (Suc i) (flt[i := zero_filter])
           @ replicate (length (stored_rules (drop (Suc i) (flt[i := zero_filter])))) zero_filter
           @ drop (Suc i + length (stored_rules (drop (Suc i) (flt[i := zero_filter]))))
               (flt[i := zero_filter])"
        using "1.IH" [OF \<open>i < ELM_ST_FILTER_LEN\<close> False] "1.prems" \<open>i < ELM_ST_FILTER_LEN\<close>
        by simp
      also have "\<dots> = take i flt @ replicate (length (stored_rules (drop i flt))) zero_filter
           @ drop (i + length (stored_rules (drop i flt))) flt"
        using il False
        by (simp add: stored_rules_drop_used take_Suc_conv_app_nth replicate_append_same)
      finally show ?thesis .
    qed
  qed
qed

lemma elm_filter_add_from_eq:
  "length flt = ELM_ST_FILTER_LEN \<Longrightarrow> i \<le> ELM_ST_FILTER_LEN \<Longrightarrow>
   elm_filter_add_from flt p m i =
     (if i + length (stored_rules (drop i flt)) < ELM_ST_FILTER_LEN
      then (True, flt[i + length (stored_rules (drop i flt))
                       := \<lparr>flt_pattern = p, flt_mask = m\<rparr>])
      else (False, flt))"
proof (induction flt p m i rule: elm_filter_add_from.induct)
  case (1 flt p m i)
  show ?case
  proof (cases "i < ELM_ST_FILTER_LEN")
    case False
    then show ?thesis
      using "1.prems" by (subst elm_filter_add_from.simps) simp
  next
    case True
    then have il: "i < length flt" using "1.prems" by simp
    show ?thesis
    proof (cases "flt_mask (flt ! i) = 0")
      case True
      then show ?thesis
        using il \<open>i < ELM_ST_FILTER_LEN\<close>
        by (subst elm_filter_add_from.simps) (simp add: stored_rules_drop_free)
    next
      case False
      then show ?thesis
        using "1.IH" [OF True False] "1.prems" il True
        by (subst elm_filter_add_from.simps) (simp add: stored_rules_drop_used)
    qed
  qed
qed

lemma drop_stored: "drop (length (stored_rules flt)) flt = dropWhile (\<lambda>r. flt_mask r \<noteq> 0) flt"
  unfolding stored_rules_def by (rule dropWhile_eq_drop [symmetric])

lemma all_free_dropWhile:
  "list_all (\<lambda>r. flt_mask r = 0) xs \<Longrightarrow> dropWhile (\<lambda>r. flt_mask r \<noteq> 0) xs = xs"
  by (cases xs) auto

lemma stored_rules_occupied: "prefix_inv flt \<Longrightarrow> stored_rules flt = occupied flt"
proof -
  assume inv: "prefix_inv flt"
  let ?P = "\<lambda>r. flt_mask r \<noteq> 0"
  have t: "filter ?P (takeWhile ?P flt) = takeWhile ?P flt"
    by (rule filter_True) (auto dest: set_takeWhileD)
  have "\<forall>x \<in> set (dropWhile ?P flt). \<not> ?P x"
    using inv unfolding prefix_inv_def list_all_iff by blast
  then have d: "filter ?P (dropWhile ?P flt) = []"
    unfolding filter_empty_conv .
  have "filter ?P flt = filter ?P (takeWhile ?P flt) @ filter ?P (dropWhile ?P flt)"
    by (metis filter_append takeWhile_dropWhile_id)
  then have "filter ?P flt = takeWhile ?P flt"
    unfolding t d by simp
  then show ?thesis
    unfolding stored_rules_def occupied_def by (rule sym)
qed

lemma all_free_replicate: "list_all (\<lambda>r. flt_mask r = 0) (replicate n zero_filter)"
  by (induction n) (simp_all add: zero_filter_def)

lemma elm_filter_clear_eq:
  assumes "length flt = ELM_ST_FILTER_LEN"
  shows "elm_filter_clear flt =
      replicate (length (stored_rules flt)) zero_filter @ drop (length (stored_rules flt)) flt"
  using elm_filter_clear_from_eq [OF assms, of 0] unfolding elm_filter_clear_def by simp

lemma prefix_inv_clear:
  assumes "length flt = ELM_ST_FILTER_LEN" "prefix_inv flt"
  shows "prefix_inv (elm_filter_clear flt)"
proof -
  have r: "list_all (\<lambda>r. flt_mask r = 0) (dropWhile (\<lambda>r. flt_mask r \<noteq> 0) flt)"
    using assms(2) unfolding prefix_inv_def .
  have "list_all (\<lambda>r. flt_mask r = 0) (elm_filter_clear flt)"
    unfolding elm_filter_clear_eq [OF assms(1)] drop_stored list_all_append
    using r all_free_replicate by blast
  then show ?thesis
    unfolding prefix_inv_def by (simp only: all_free_dropWhile)
qed

lemma prefix_inv_add:
  assumes "length flt = ELM_ST_FILTER_LEN" "prefix_inv flt"
  shows "prefix_inv (snd (elm_filter_add flt p m))"
proof (cases "length (stored_rules flt) < ELM_ST_FILTER_LEN")
  case False
  then show ?thesis
    using elm_filter_add_from_eq [OF assms(1), of 0 p m] assms(2)
    by (simp add: elm_filter_add_def)
next
  case True
  let ?P = "\<lambda>r. flt_mask r \<noteq> 0"
  let ?k = "length (stored_rules flt)"
  let ?r = "\<lparr>flt_pattern = p, flt_mask = m\<rparr>"
  have a: "snd (elm_filter_add flt p m) = flt[?k := ?r]"
    using elm_filter_add_from_eq [OF assms(1), of 0 p m] True by (simp add: elm_filter_add_def)
  have kl: "?k < length flt" using True assms(1) by simp
  have u: "flt[?k := ?r] = takeWhile ?P flt @ ?r # drop (Suc ?k) flt"
  proof -
    have "take ?k flt = takeWhile ?P flt"
      unfolding stored_rules_def by (rule takeWhile_eq_take [symmetric])
    then show ?thesis using upd_conv_take_nth_drop [OF kl, of ?r] by simp
  qed
  have rest: "list_all (\<lambda>r. flt_mask r = 0) (drop (Suc ?k) flt)"
  proof -
    have "drop (Suc ?k) flt = tl (drop ?k flt)"
      by (simp add: drop_Suc tl_drop)
    then have "drop (Suc ?k) flt = tl (dropWhile ?P flt)"
      by (simp only: drop_stored)
    then show ?thesis
      using assms(2) by (cases "dropWhile ?P flt") (auto simp: prefix_inv_def)
  qed
  have tw: "\<forall>x \<in> set (takeWhile ?P flt). ?P x"
    by (auto dest: set_takeWhileD)
  show ?thesis
  proof (cases "m = 0")
    case True
    then have "dropWhile ?P (flt[?k := ?r]) = ?r # drop (Suc ?k) flt"
      unfolding u using tw by (simp add: dropWhile_append2)
    then show ?thesis using rest True a by (simp add: prefix_inv_def)
  next
    case False
    then have "dropWhile ?P (flt[?k := ?r]) = dropWhile ?P (drop (Suc ?k) flt)"
      unfolding u using tw by (simp add: dropWhile_append2)
    moreover have "dropWhile ?P (drop (Suc ?k) flt) = drop (Suc ?k) flt"
      using rest by (rule all_free_dropWhile)
    ultimately show ?thesis using rest a by (simp add: prefix_inv_def)
  qed
qed

lemma length_elm_filter_clear:
  "length flt = ELM_ST_FILTER_LEN \<Longrightarrow> length (elm_filter_clear flt) = ELM_ST_FILTER_LEN"
proof -
  assume l: "length flt = ELM_ST_FILTER_LEN"
  have "length (stored_rules flt) \<le> length flt"
    unfolding stored_rules_def by (rule length_takeWhile_le)
  then show ?thesis
    unfolding elm_filter_clear_eq [OF l] using l by simp
qed

lemma elm_filter_add_eq:
  assumes "length flt = ELM_ST_FILTER_LEN"
  shows "elm_filter_add flt p m =
     (if length (stored_rules flt) < ELM_ST_FILTER_LEN
      then (True, flt[length (stored_rules flt) := \<lparr>flt_pattern = p, flt_mask = m\<rparr>])
      else (False, flt))"
  using elm_filter_add_from_eq [OF assms, of 0 p m] unfolding elm_filter_add_def by simp

lemma length_elm_filter_add:
  "length flt = ELM_ST_FILTER_LEN \<Longrightarrow>
   length (snd (elm_filter_add flt p m)) = ELM_ST_FILTER_LEN"
  by (simp add: elm_filter_add_eq)

lemma table_ok_clear: "table_ok flt \<Longrightarrow> table_ok (elm_filter_clear flt)"
  unfolding table_ok_def by (simp add: prefix_inv_clear length_elm_filter_clear)

lemma table_ok_add: "table_ok flt \<Longrightarrow> table_ok (snd (elm_filter_add flt p m))"
  unfolding table_ok_def by (simp add: prefix_inv_add length_elm_filter_add)

lemma filters_inv_reset: "filters_inv g \<Longrightarrow> filters_inv (elm_reset g)"
  unfolding filters_inv_def elm_reset_def by (simp add: table_ok_clear)

lemma table_ok_zeroed: "table_ok (replicate ELM_ST_FILTER_LEN zero_filter)"
proof -
  have "list_all (\<lambda>r. flt_mask r = 0) (replicate ELM_ST_FILTER_LEN zero_filter)"
    by (rule all_free_replicate)
  then show ?thesis
    unfolding table_ok_def prefix_inv_def by (simp add: all_free_dropWhile)
qed

lemma filters_inv_zeroed: "filters_inv (elm_zeroed tag)"
  unfolding filters_inv_def elm_zeroed_def by (simp add: table_ok_zeroed)

subsection \<open>What any command can do to the stored line and the tables\<close>

lemma keeps_session_refl: "keeps_session g g"
  by (simp add: keeps_session_def)

lemma branch_keeps_if:
  "branch_keeps g a \<Longrightarrow> branch_keeps g b \<Longrightarrow> branch_keeps g (if c then a else b)"
  by simp

lemma elm_do_at_keeps: "branch_keeps g (elm_do_at g cmd)"
  unfolding elm_do_at_def Let_def
  by (intro branch_keeps_if)
     (simp_all add: branch_keeps_def keeps_session_def filters_inv_def elm_reset_def
        elm_monitor_start_def table_ok_clear case_prod_beta)

lemma elm_do_st_keeps: "branch_keeps g (elm_do_st g cmd)"
  unfolding elm_do_st_def Let_def
  by (intro branch_keeps_if)
     (simp_all add: branch_keeps_def keeps_session_def filters_inv_def
        elm_monitor_start_def table_ok_clear table_ok_add case_prod_beta split: option.split)

lemma elm_do_simu_keeps: "branch_keeps g (elm_do_simu g cmd)"
  unfolding elm_do_simu_def Let_def
  by (intro branch_keeps_if) (simp_all add: branch_keeps_def keeps_session_def)

lemma elm_do_wifi_keeps: "branch_keeps g (elm_do_wifi ext g cmd)"
  unfolding elm_do_wifi_def Let_def
  by (intro branch_keeps_if)
     (simp_all add: branch_keeps_def keeps_session_def filters_inv_def case_prod_beta)

lemma keeps_session_if:
  "keeps_session g (fst a) \<Longrightarrow> keeps_session g (fst b) \<Longrightarrow>
   keeps_session g (fst (if c then a else b))"
  by simp

lemma keeps_session_branch:
  "branch_keeps g r \<Longrightarrow> keeps_session g (fst e) \<Longrightarrow>
   keeps_session g (fst (case r of Some x \<Rightarrow> x | None \<Rightarrow> e))"
  by (cases r) (auto simp: branch_keeps_def)

lemma elm_dispatch_keeps: "keeps_session g (fst (elm_dispatch ext g cmd))"
  unfolding elm_dispatch_def Let_def
  by (intro keeps_session_if keeps_session_branch elm_do_at_keeps elm_do_st_keeps
        elm_do_simu_keeps elm_do_wifi_keeps)
     (simp_all add: keeps_session_refl case_prod_beta)

lemma elm_do_cmd_tables:
  "filters_inv g \<Longrightarrow> filters_inv (fst (elm_do_cmd ext g cmd))"
proof -
  assume a: "filters_inv g"
  have "filters_inv (g\<lparr>elm_previous_cmd := cmd\<rparr>)"
    using a by (simp add: filters_inv_def)
  then show ?thesis
    unfolding elm_do_cmd_def Let_def
    using a elm_dispatch_keeps [of g ext] elm_dispatch_keeps [of "g\<lparr>elm_previous_cmd := cmd\<rparr>" ext]
    by (simp add: keeps_session_def)
qed

lemma stored_slots_used: "j < length (stored_rules flt) \<Longrightarrow> flt_mask (flt ! j) \<noteq> 0"
proof -
  assume j: "j < length (stored_rules flt)"
  then have "stored_rules flt ! j = flt ! j"
    unfolding stored_rules_def by (rule takeWhile_nth)
  moreover have "stored_rules flt ! j \<in> set (stored_rules flt)"
    using j by simp
  ultimately show ?thesis
    unfolding stored_rules_def by (auto dest: set_takeWhileD)
qed

lemma first_free_slot:
  "length (stored_rules flt) < length flt \<Longrightarrow> flt_mask (flt ! length (stored_rules flt)) = 0"
  unfolding stored_rules_def using nth_length_takeWhile [of "\<lambda>r. flt_mask r \<noteq> 0" flt] by simp

lemma occupied_clear:
  assumes "table_ok flt"
  shows "occupied (elm_filter_clear flt) = []"
proof -
  have l: "length flt = ELM_ST_FILTER_LEN" and p: "prefix_inv flt"
    using assms by (simp_all add: table_ok_def)
  have "list_all (\<lambda>r. flt_mask r = 0) (dropWhile (\<lambda>r. flt_mask r \<noteq> 0) flt)"
    using p unfolding prefix_inv_def .
  then have "list_all (\<lambda>r. flt_mask r = 0) (elm_filter_clear flt)"
    unfolding elm_filter_clear_eq [OF l] drop_stored list_all_append
    using all_free_replicate by blast
  then show ?thesis
    unfolding occupied_def by (simp add: filter_empty_conv list_all_iff)
qed

lemma table_ok_example: "table_ok table_example"
  by (simp add: table_ok_def table_example_def prefix_inv_def ELM_ST_FILTER_LEN_def
      zero_filter_def dropWhile_replicate list_all_iff)

lemma filters_inv_example: "filters_inv filter_example"
  by (simp add: filters_inv_def filter_example_def table_ok_example)
     (simp add: table_ok_def prefix_inv_def ELM_ST_FILTER_LEN_def
      zero_filter_def dropWhile_replicate list_all_iff)

subsection \<open>C1: the two-stage filter test\<close>

text \<open>
  Claim C1. For every session filter set and every frame identifier, \<^verbatim>\<open>elm_filter_test\<close>
  returns true exactly when the identifier is not 0, it matches the session's AT rule
  (\<open>id AND mask = pattern AND mask\<close>), the pass list is empty or the identifier matches at
  least one pass rule, and it is not the case that the block list is non-empty and the
  identifier matches at least one block rule. The lists are the rules the tables hold
  (\<open>stored_rules\<close>: the slots before the first free one). The test writes to no session
  state: the source assigns only to its local flag, and the model is a function from the
  session state to the flag.
\<close>

theorem elm_filter_test_precedence:
  assumes "length (pass_filter g) = ELM_ST_FILTER_LEN"
    and "length (block_filter g) = ELM_ST_FILTER_LEN"
  shows "elm_filter_test g ident us =
     (ident \<noteq> 0 \<and> id_matches ident (elm_filter g) \<and>
      (stored_rules (pass_filter g) = [] \<or>
         (\<exists>r \<in> set (stored_rules (pass_filter g)). id_matches ident r)) \<and>
      \<not> (stored_rules (block_filter g) \<noteq> [] \<and>
         (\<exists>r \<in> set (stored_rules (block_filter g)). id_matches ident r)))"
proof -
  have p: "pass_loop (pass_filter g) ident 0 =
      (\<exists>r \<in> set (stored_rules (pass_filter g)). id_matches ident r)"
    using pass_loop_scan [OF assms(1), of 0 ident] by simp
  have b: "block_loop (block_filter g) ident 0 =
      (\<not> (\<exists>r \<in> set (stored_rules (block_filter g)). id_matches ident r))"
    using block_loop_scan [OF assms(2), of 0 ident] by simp
  show ?thesis
    unfolding elm_filter_test_def Let_def p b
    using first_slot_free [OF assms(1)] first_slot_free [OF assms(2)]
    by (auto simp: id_matches_def)
qed

text \<open>
  The theorem at the example session: \<open>0x7E8\<close> passes, \<open>0x7E9\<close> is vetoed by the block
  rule, \<open>0x0E8\<close> matches no pass rule.
\<close>

theorem elm_filter_test_precedence_witness:
  "length (pass_filter filter_example) = ELM_ST_FILTER_LEN \<and>
   length (block_filter filter_example) = ELM_ST_FILTER_LEN \<and>
   elm_filter_test filter_example 0x7E8 0 \<and>
   \<not> elm_filter_test filter_example 0x7E9 0 \<and>
   \<not> elm_filter_test filter_example 0x0E8 0"
proof -
  have l: "length (pass_filter filter_example) = ELM_ST_FILTER_LEN"
      "length (block_filter filter_example) = ELM_ST_FILTER_LEN"
    by (simp_all add: filter_example_def table_example_def ELM_ST_FILTER_LEN_def)
  have s: "stored_rules (pass_filter filter_example) = [\<lparr>flt_pattern = 0x700, flt_mask = 0x700\<rparr>]"
      "stored_rules (block_filter filter_example) = [\<lparr>flt_pattern = 0x7E9, flt_mask = 0x7FF\<rparr>]"
    by (simp_all add: filter_example_def table_example_def stored_rules_def zero_filter_def
        takeWhile_replicate)
  have f: "elm_filter filter_example = zero_filter"
    by (simp add: filter_example_def elm_zeroed_def)
  show ?thesis
    using l elm_filter_test_precedence [OF l, of "0x7E8" 0]
      elm_filter_test_precedence [OF l, of "0x7E9" 0]
      elm_filter_test_precedence [OF l, of "0x0E8" 0]
    by (simp add: s f id_matches_def zero_filter_def)
qed

subsection \<open>C10: the occupied slots of a table form a prefix\<close>

text \<open>
  Claim C10. In a well-formed table (\<open>table_ok\<close>: 100 slots, every slot after the first free
  one free) the rules the scans visit (\<open>stored_rules\<close>) are exactly the occupied slots;
  the slots below \<open>length (occupied flt)\<close> are occupied and the slot at that index, when
  there is one, is the lowest free slot; \<^verbatim>\<open>elm_filter_add\<close> writes the rule there (and
  returns false, changing nothing, when the table is full); \<^verbatim>\<open>elm_filter_clear\<close> zeroes
  exactly the slots below that index and leaves no occupied slot. Both operations give a
  well-formed table again, the zeroed tables of a fresh session are well formed, and
  \<^verbatim>\<open>elm_reset\<close> and every dispatched command keep both tables of a session well formed.
\<close>

theorem filter_tables_prefix_invariant:
  "(table_ok flt \<longrightarrow>
      stored_rules flt = occupied flt \<and>
      (\<forall>j < length (occupied flt). flt_mask (flt ! j) \<noteq> 0) \<and>
      (length (occupied flt) < ELM_ST_FILTER_LEN \<longrightarrow> flt_mask (flt ! length (occupied flt)) = 0) \<and>
      elm_filter_add flt p m =
        (if length (occupied flt) < ELM_ST_FILTER_LEN
         then (True, flt[length (occupied flt) := \<lparr>flt_pattern = p, flt_mask = m\<rparr>])
         else (False, flt)) \<and>
      elm_filter_clear flt =
        replicate (length (occupied flt)) zero_filter @ drop (length (occupied flt)) flt \<and>
      occupied (elm_filter_clear flt) = [] \<and>
      table_ok (snd (elm_filter_add flt p m)) \<and>
      table_ok (elm_filter_clear flt)) \<and>
   filters_inv (elm_zeroed tag) \<and>
   (filters_inv g \<longrightarrow> filters_inv (elm_reset g) \<and> filters_inv (fst (elm_do_cmd ext g cmd)))"
proof -
  have tab: "stored_rules flt = occupied flt \<and>
      (\<forall>j < length (occupied flt). flt_mask (flt ! j) \<noteq> 0) \<and>
      (length (occupied flt) < ELM_ST_FILTER_LEN \<longrightarrow> flt_mask (flt ! length (occupied flt)) = 0) \<and>
      elm_filter_add flt p m =
        (if length (occupied flt) < ELM_ST_FILTER_LEN
         then (True, flt[length (occupied flt) := \<lparr>flt_pattern = p, flt_mask = m\<rparr>])
         else (False, flt)) \<and>
      elm_filter_clear flt =
        replicate (length (occupied flt)) zero_filter @ drop (length (occupied flt)) flt \<and>
      occupied (elm_filter_clear flt) = [] \<and>
      table_ok (snd (elm_filter_add flt p m)) \<and>
      table_ok (elm_filter_clear flt)" if ok: "table_ok flt"
  proof -
    have l: "length flt = ELM_ST_FILTER_LEN" and pi: "prefix_inv flt"
      using ok by (simp_all add: table_ok_def)
    have so: "stored_rules flt = occupied flt"
      using pi by (rule stored_rules_occupied)
    have "\<forall>j < length (stored_rules flt). flt_mask (flt ! j) \<noteq> 0"
      using stored_slots_used by blast
    moreover have "length (stored_rules flt) < ELM_ST_FILTER_LEN \<longrightarrow>
        flt_mask (flt ! length (stored_rules flt)) = 0"
      using first_free_slot [of flt] l by simp
    moreover note elm_filter_add_eq [OF l, of p m] elm_filter_clear_eq [OF l]
      occupied_clear [OF ok] table_ok_add [OF ok, of p m] table_ok_clear [OF ok]
    ultimately show ?thesis
      unfolding so by blast
  qed
  show ?thesis
    using tab filters_inv_zeroed [of tag] filters_inv_reset [of g] elm_do_cmd_tables [of g ext cmd]
    by blast
qed

text \<open>The invariant at the one-rule table and the example session.\<close>

theorem filter_tables_prefix_invariant_witness:
  "table_ok table_example \<and>
   stored_rules table_example = occupied table_example \<and>
   elm_filter_add table_example 0x7E8 0x7FF =
     (True, table_example[1 := \<lparr>flt_pattern = 0x7E8, flt_mask = 0x7FF\<rparr>]) \<and>
   occupied (elm_filter_clear table_example) = [] \<and>
   table_ok (snd (elm_filter_add table_example 0x7E8 0x7FF)) \<and>
   filters_inv filter_example \<and>
   filters_inv (elm_reset filter_example) \<and>
   filters_inv (fst (elm_do_cmd zero_ext filter_example ''STFPA7E8,7FF''))"
proof -
  have o: "length (occupied table_example) = 1"
    by (simp add: occupied_def table_example_def zero_filter_def)
  note inv = filter_tables_prefix_invariant
      [of table_example "0x7E8" "0x7FF" "''bt''" filter_example zero_ext "''STFPA7E8,7FF''"]
  have s: "stored_rules table_example = occupied table_example"
    using inv table_ok_example by blast
  have a: "elm_filter_add table_example 0x7E8 0x7FF =
      (if length (occupied table_example) < ELM_ST_FILTER_LEN
       then (True, table_example[length (occupied table_example)
                                   := \<lparr>flt_pattern = 0x7E8, flt_mask = 0x7FF\<rparr>])
       else (False, table_example))"
    using inv table_ok_example by blast
  have c: "occupied (elm_filter_clear table_example) = []"
    using inv table_ok_example by blast
  have t: "table_ok (snd (elm_filter_add table_example 0x7E8 0x7FF))"
    using inv table_ok_example by blast
  have f: "filters_inv (elm_reset filter_example)"
      "filters_inv (fst (elm_do_cmd zero_ext filter_example ''STFPA7E8,7FF''))"
    using inv filters_inv_example by blast+
  have "elm_filter_add table_example 0x7E8 0x7FF =
      (True, table_example[1 := \<lparr>flt_pattern = 0x7E8, flt_mask = 0x7FF\<rparr>])"
    unfolding a o by (simp add: ELM_ST_FILTER_LEN_def)
  then show ?thesis
    using table_ok_example s c t f filters_inv_example by blast
qed

subsection \<open>The stored line after a command\<close>

text \<open>
  The tests of the dispatcher compare letter by letter, so that a line which passes one
  test fails every test for a name with another first letter. With this, a reset line is
  seen to reach its branch of \<^verbatim>\<open>AT\<close> and a network line its branch of \<^verbatim>\<open>WIFI\<close>, where the
  stored line is emptied; and on a line that is neither, every branch that returns leaves
  the stored line alone.
\<close>

lemma c_tolower_letters:
  "c_tolower CHR ''A'' = CHR ''a''" "c_tolower CHR ''C'' = CHR ''c''"
  "c_tolower CHR ''D'' = CHR ''d''" "c_tolower CHR ''E'' = CHR ''e''"
  "c_tolower CHR ''F'' = CHR ''f''" "c_tolower CHR ''G'' = CHR ''g''"
  "c_tolower CHR ''H'' = CHR ''h''" "c_tolower CHR ''I'' = CHR ''i''"
  "c_tolower CHR ''L'' = CHR ''l''" "c_tolower CHR ''M'' = CHR ''m''"
  "c_tolower CHR ''N'' = CHR ''n''" "c_tolower CHR ''O'' = CHR ''o''"
  "c_tolower CHR ''P'' = CHR ''p''" "c_tolower CHR ''R'' = CHR ''r''"
  "c_tolower CHR ''S'' = CHR ''s''" "c_tolower CHR ''T'' = CHR ''t''"
  "c_tolower CHR ''U'' = CHR ''u''" "c_tolower CHR ''W'' = CHR ''w''"
  "c_tolower CHR ''Z'' = CHR ''z''" "c_tolower CHR ''B'' = CHR ''b''"
  "c_tolower CHR ''@'' = CHR ''@''" "c_tolower CHR ''1'' = CHR ''1''"
  "c_tolower CHR ''2'' = CHR ''2''" "c_tolower CHR ''3'' = CHR ''3''"
  by (simp_all add: c_tolower_def char_of_def bit_Suc_0_iff)

lemma strcasecmp_eq_Nil: "strcasecmp_eq a [] = (a = [])"
  by (simp add: strcasecmp_eq_def)

lemma strcasecmp_eq_Cons:
  "strcasecmp_eq a (x # xs) =
     (a \<noteq> [] \<and> c_tolower (hd a) = c_tolower x \<and> strcasecmp_eq (tl a) xs)"
  by (cases a) (auto simp: strcasecmp_eq_def)

lemma strncasecmp_eq_Nil: "strncasecmp_eq a [] n = (n = 0 \<or> a = [])"
  by (simp add: strncasecmp_eq_def)

lemma strncasecmp_eq_Cons:
  "strncasecmp_eq a (x # xs) n =
     (n = 0 \<or> (a \<noteq> [] \<and> c_tolower (hd a) = c_tolower x \<and> strncasecmp_eq (tl a) xs (n - 1)))"
  by (cases a; cases n) (auto simp: strncasecmp_eq_def)

lemmas first_letter = strcasecmp_eq_Nil strcasecmp_eq_Cons strncasecmp_eq_Nil
  strncasecmp_eq_Cons c_tolower_letters is_toggle_def

lemma elm_do_at_D:
  assumes "strcasecmp_eq (drop 2 cmd) ''D''"
  shows "elm_do_at g cmd = Some (elm_reset g, elm_write_ok (elm_reset g))"
  using assms by (simp add: elm_do_at_def first_letter Let_def)

lemma elm_do_at_WS:
  assumes "strcasecmp_eq (drop 2 cmd) ''WS''"
  shows "elm_do_at g cmd =
    Some (elm_reset g, TaskDelay (100 div 2) # elm_writeln (elm_reset g) (Some ELM_VERSION_STRING))"
  using assms by (simp add: elm_do_at_def first_letter Let_def)

lemma elm_do_at_Z:
  assumes "strcasecmp_eq (drop 2 cmd) ''Z''"
  shows "elm_do_at g cmd =
    Some (elm_reset g, TaskDelay 100 # elm_writeln (elm_reset g) (Some ELM_VERSION_STRING))"
  using assms by (simp add: elm_do_at_def first_letter Let_def)


lemma branch_line_kept_if:
  "(c \<Longrightarrow> branch_line_kept g a) \<Longrightarrow> (\<not> c \<Longrightarrow> branch_line_kept g b) \<Longrightarrow>
   branch_line_kept g (if c then a else b)"
  by simp

lemma branch_line_kept_if1:
  "(c \<Longrightarrow> branch_line_kept g a) \<Longrightarrow> branch_line_kept g b \<Longrightarrow>
   branch_line_kept g (if c then a else b)"
  by simp

lemma elm_do_at_line_kept:
  assumes "\<not> strcasecmp_eq (drop 2 cmd) ''D''" "\<not> strcasecmp_eq (drop 2 cmd) ''WS''"
    "\<not> strcasecmp_eq (drop 2 cmd) ''Z''"
  shows "branch_line_kept g (elm_do_at g cmd)"
  unfolding elm_do_at_def Let_def
  using assms
  by (intro branch_line_kept_if1)
     (simp_all add: branch_line_kept_def line_kept_def elm_monitor_start_def case_prod_beta)

lemma elm_do_st_line_kept: "branch_line_kept g (elm_do_st g cmd)"
  unfolding elm_do_st_def Let_def
  by (intro branch_line_kept_if1)
     (simp_all add: branch_line_kept_def line_kept_def elm_monitor_start_def case_prod_beta
        split: option.split)

lemma elm_do_simu_line_kept: "branch_line_kept g (elm_do_simu g cmd)"
  unfolding elm_do_simu_def Let_def
  by (intro branch_line_kept_if1) (simp_all add: branch_line_kept_def line_kept_def)


lemma map_split2:
  "(map f xs = a # b # ys) = (map f (take 2 xs) = [a, b] \<and> map f (drop 2 xs) = ys)"
proof (cases xs)
  case Nil
  then show ?thesis by simp
next
  case (Cons x xs')
  then show ?thesis by (cases xs') (auto simp: numeral_2_eq_2)
qed

lemma is_reset_line_iff:
  "is_reset_line cmd =
     (strncasecmp_eq cmd ''AT'' 2 \<and>
      (strcasecmp_eq (drop 2 cmd) ''D'' \<or> strcasecmp_eq (drop 2 cmd) ''WS'' \<or>
       strcasecmp_eq (drop 2 cmd) ''Z''))"
  using map_split2 [of c_tolower cmd "CHR ''a''" "CHR ''t''" "''z''"]
    map_split2 [of c_tolower cmd "CHR ''a''" "CHR ''t''" "''ws''"]
    map_split2 [of c_tolower cmd "CHR ''a''" "CHR ''t''" "''d''"]
  by (auto simp: is_reset_line_def strncasecmp_eq_def strcasecmp_eq_def c_tolower_letters)

lemma is_network_line_iff:
  "is_network_line cmd =
     (strncasecmp_eq cmd ''WIFI'' 4 \<and>
      (strncasecmp_eq (skip_spaces (drop 4 cmd)) ''STOP'' 4 \<or>
       (strncasecmp_eq (skip_spaces (drop 4 cmd)) ''STA'' 3 \<and>
        skip_spaces (drop 3 (skip_spaces (drop 4 cmd))) \<noteq> []) \<or>
       (strncasecmp_eq (skip_spaces (drop 4 cmd)) ''AP'' 2 \<and>
        skip_spaces (drop 2 (skip_spaces (drop 4 cmd))) \<noteq> [])))"
  unfolding is_network_line_def strncasecmp_eq_def Let_def
  by (simp add: c_tolower_letters)

lemma elm_do_at_emptied:
  assumes "is_reset_line cmd"
  shows "\<exists>a. elm_do_at g cmd = Some a \<and> elm_previous_cmd (fst a) = []"
  using assms elm_do_at_D [of cmd g] elm_do_at_WS [of cmd g] elm_do_at_Z [of cmd g]
  unfolding is_reset_line_iff by (auto simp: elm_reset_def)

lemma elm_do_at_line_kept_line:
  assumes "strncasecmp_eq cmd ''AT'' 2" "\<not> is_reset_line cmd"
  shows "branch_line_kept g (elm_do_at g cmd)"
  using assms unfolding is_reset_line_iff by (intro elm_do_at_line_kept) simp_all

lemma elm_do_wifi_line_kept:
  assumes "strncasecmp_eq cmd ''WIFI'' 4" "\<not> is_network_line cmd"
  shows "branch_line_kept g (elm_do_wifi ext g cmd)"
  unfolding elm_do_wifi_def Let_def
  using assms unfolding is_network_line_iff
  by (intro branch_line_kept_if)
     (simp_all add: branch_line_kept_def line_kept_def)

lemma elm_do_wifi_emptied:
  assumes "is_network_line cmd"
  shows "\<exists>a. elm_do_wifi ext g cmd = Some a \<and> elm_previous_cmd (fst a) = []"
proof -
  let ?r = "skip_spaces (drop 4 cmd)"
  consider (stop) "strncasecmp_eq ?r ''STOP'' 4"
    | (sta) "strncasecmp_eq ?r ''STA'' 3" "skip_spaces (drop 3 ?r) \<noteq> []"
    | (ap) "strncasecmp_eq ?r ''AP'' 2" "skip_spaces (drop 2 ?r) \<noteq> []"
    using assms unfolding is_network_line_iff by blast
  then show ?thesis
  proof cases
    case stop
    then show ?thesis
      by (simp add: elm_do_wifi_def Let_def first_letter)
  next
    case sta
    then show ?thesis
      by (simp add: elm_do_wifi_def Let_def first_letter case_prod_beta)
  next
    case ap
    then show ?thesis
      by (simp add: elm_do_wifi_def Let_def first_letter case_prod_beta)
  qed
qed

lemma elm_dispatch_AT:
  assumes "strncasecmp_eq cmd ''AT'' 2"
  shows "elm_dispatch ext g cmd =
    (case elm_do_at g cmd of Some r \<Rightarrow> r | None \<Rightarrow> (g, elm_writeln g (Some ELM_QUERY_PROMPT)))"
  using assms by (simp add: elm_dispatch_def first_letter Let_def)

lemma elm_dispatch_WIFI:
  assumes "strncasecmp_eq cmd ''WIFI'' 4"
  shows "elm_dispatch ext g cmd =
    (case elm_do_wifi ext g cmd of Some r \<Rightarrow> r
     | None \<Rightarrow> (g, elm_writeln g (Some ELM_QUERY_PROMPT)))"
  using assms by (simp add: elm_dispatch_def first_letter Let_def)

lemma elm_dispatch_emptied:
  assumes "empties_stored_line cmd"
  shows "elm_previous_cmd (fst (elm_dispatch ext g cmd)) = []"
proof -
  from assms consider (r) "is_reset_line cmd" | (n) "is_network_line cmd"
    unfolding empties_stored_line_def by blast
  then show ?thesis
  proof cases
    case r
    then have "strncasecmp_eq cmd ''AT'' 2" unfolding is_reset_line_iff by simp
    then show ?thesis
      using elm_do_at_emptied [OF r, of g] by (auto simp: elm_dispatch_AT)
  next
    case n
    then have "strncasecmp_eq cmd ''WIFI'' 4" unfolding is_network_line_iff by simp
    then show ?thesis
      using elm_do_wifi_emptied [OF n, of ext g] by (auto simp: elm_dispatch_WIFI)
  qed
qed

lemma line_kept_if1:
  "(c \<Longrightarrow> line_kept g a) \<Longrightarrow> line_kept g b \<Longrightarrow> line_kept g (if c then a else b)"
  by simp

lemma line_kept_branch:
  "branch_line_kept g r \<Longrightarrow> line_kept g e \<Longrightarrow>
   line_kept g (case r of Some x \<Rightarrow> x | None \<Rightarrow> e)"
  by (cases r) (simp_all add: branch_line_kept_def)

lemma elm_dispatch_line_kept:
  assumes "\<not> empties_stored_line cmd"
  shows "line_kept g (elm_dispatch ext g cmd)"
  unfolding elm_dispatch_def Let_def
  using assms unfolding empties_stored_line_def
  by (intro line_kept_if1 line_kept_branch)
     (simp_all add: elm_do_at_line_kept_line elm_do_wifi_line_kept elm_do_st_line_kept
        elm_do_simu_line_kept line_kept_def case_prod_beta)

lemma elm_dispatch_stored_line:
  "elm_previous_cmd (fst (elm_dispatch ext g cmd)) =
     (if empties_stored_line cmd then [] else elm_previous_cmd g)"
  using elm_dispatch_emptied [of cmd ext g] elm_dispatch_line_kept [of cmd g ext]
  by (simp add: line_kept_def)


lemma not_empties_nil: "\<not> empties_stored_line []"
  by (simp add: empties_stored_line_def is_reset_line_def is_network_line_def)

lemma elm_do_cmd_empty: "elm_do_cmd ext g [] = elm_do_cmd ext g (elm_previous_cmd g)"
  by (cases "elm_previous_cmd g = []") (simp_all add: elm_do_cmd_def Let_def)

lemma elm_do_cmd_stored_line:
  "elm_previous_cmd (fst (elm_do_cmd ext g cmd)) =
     (if cmd = [] then
        (if empties_stored_line (skip_spaces (elm_previous_cmd g)) then []
         else elm_previous_cmd g)
      else (if empties_stored_line (skip_spaces cmd) then [] else cmd))"
  by (simp add: elm_do_cmd_def Let_def elm_dispatch_stored_line)

lemma stored_line_ok_after: "stored_line_ok (fst (elm_do_cmd ext g cmd))"
  unfolding stored_line_ok_def elm_do_cmd_stored_line
  by (simp add: not_empties_nil skip_spaces_def)

lemma stored_line_ok_start: "stored_line_ok (elm_session_start tag)"
  by (simp add: stored_line_ok_def elm_session_start_def elm_reset_def skip_spaces_def
      not_empties_nil)

subsection \<open>Single commands\<close>

lemmas cstr = strcasecmp_eq_def strncasecmp_eq_def c_tolower_def char_of_def bit_Suc_0_iff
  is_toggle_def char_at_def skip_spaces_def

lemma dispatch_ATZ:
  "elm_do_cmd ext g ''ATZ'' =
     (elm_reset (g\<lparr>elm_previous_cmd := ''ATZ''\<rparr>),
      [TaskDelay 100, Write ELM_VERSION_STRING, Write NEWLINE_CRLF])"
  by (simp add: elm_do_cmd_def elm_dispatch_def elm_do_at_def cstr elm_writeln_def
      elm_newline_def ELM_NEWLINE_def elm_reset_def Let_def)

lemma dispatch_ATWS:
  "elm_do_cmd ext g ''ATWS'' =
     (elm_reset (g\<lparr>elm_previous_cmd := ''ATWS''\<rparr>),
      [TaskDelay 50, Write ELM_VERSION_STRING, Write NEWLINE_CRLF])"
  by (simp add: elm_do_cmd_def elm_dispatch_def elm_do_at_def cstr elm_writeln_def
      elm_newline_def ELM_NEWLINE_def elm_reset_def Let_def)

lemma dispatch_ATD:
  "elm_do_cmd ext g ''ATD'' =
     (elm_reset (g\<lparr>elm_previous_cmd := ''ATD''\<rparr>),
      [Write ELM_OK_PROMPT, Write NEWLINE_CRLF])"
  by (simp add: elm_do_cmd_def elm_dispatch_def elm_do_at_def cstr elm_write_ok_def
      elm_newline_def ELM_NEWLINE_def elm_reset_def Let_def)

lemma dispatch_ATI:
  "elm_do_cmd ext g ''ATI'' =
     (g\<lparr>elm_previous_cmd := ''ATI''\<rparr>, [Write ELM_VERSION_STRING, Write (ELM_NEWLINE g)])"
  by (simp add: elm_do_cmd_def elm_dispatch_def elm_do_at_def cstr elm_writeln_def
      elm_newline_def ELM_NEWLINE_def Let_def)

lemma dispatch_AT_at3:
  "elm_do_cmd ext g ''AT@3'' =
     (g\<lparr>elm_previous_cmd := ''AT@3'', elm_device_identifier := Some []\<rparr>,
      [Write ELM_OK_PROMPT, Write (ELM_NEWLINE g)])"
  by (simp add: elm_do_cmd_def elm_dispatch_def elm_do_at_def cstr elm_write_ok_def
      elm_newline_def ELM_NEWLINE_def Let_def)

lemma dispatch_empty_stored:
  "elm_previous_cmd g = [] \<Longrightarrow>
   elm_do_cmd ext g [] = (g, [Write ELM_QUERY_PROMPT, Write (ELM_NEWLINE g)])"
  by (simp add: elm_do_cmd_def elm_dispatch_def cstr elm_writeln_def elm_newline_def Let_def)

lemma empties_examples:
  "empties_stored_line ''ATZ''" "empties_stored_line ''atws''" "empties_stored_line ''ATD''"
  "empties_stored_line ''WIFI STOP''" "empties_stored_line ''WIFI STA net pw''"
  "empties_stored_line ''WIFI AP net pw''"
  "\<not> empties_stored_line ''ATI''" "\<not> empties_stored_line ''ATAL''"
  "\<not> empties_stored_line ''ATE0''" "\<not> empties_stored_line ''ATH1''"
  "\<not> empties_stored_line ''ATD1''" "\<not> empties_stored_line ''WIFI STA''"
  "\<not> empties_stored_line ''WIFI SCAN''" "\<not> empties_stored_line ''STFAC''"
  by (simp_all add: empties_stored_line_def is_reset_line_def is_network_line_def
      c_tolower_def char_of_def bit_Suc_0_iff skip_spaces_def)

lemma occupied_reset:
  assumes "filters_inv g"
  shows "occupied (pass_filter (elm_reset g)) = []" "occupied (block_filter (elm_reset g)) = []"
  using assms by (simp_all add: filters_inv_def elm_reset_def occupied_clear)

lemma session_start_fields:
  "elm_previous_cmd (elm_session_start tag) = []"
  "elm_device_identifier (elm_session_start tag) = None"
  "elm_linefeed (elm_session_start tag)"
  by (simp_all add: elm_session_start_def elm_reset_def elm_zeroed_def)

subsection \<open>C3: what ATZ restores\<close>

text \<open>
  Claim C3, amended. After \<^verbatim>\<open>ATZ\<close> is dispatched in a session with well-formed tables, echo,
  linefeed, headers and spaces are on, DLC display is off, the timeout is 5000 ms, memory is
  on, adaptive timing is 1, CAN auto-format is off, CAN flow control and CAN silent mode are
  on, long messages are off, the protocol is \<^verbatim>\<open>'0'\<close> with the auto flag set, the stored line
  is empty, the monitor is off, the AT pattern and mask are zero and neither table has an
  occupied slot. The device identifier is the one the session had before: \<^verbatim>\<open>elm_reset\<close> does
  not assign it.
\<close>

theorem atz_restores_all_but_identifier:
  assumes "filters_inv g"
  shows "elm_echo (fst (elm_do_cmd ext g ''ATZ'')) \<and>
    elm_linefeed (fst (elm_do_cmd ext g ''ATZ'')) \<and>
    elm_headers (fst (elm_do_cmd ext g ''ATZ'')) \<and>
    elm_spaces (fst (elm_do_cmd ext g ''ATZ'')) \<and>
    \<not> elm_dlc (fst (elm_do_cmd ext g ''ATZ'')) \<and>
    elm_timeout (fst (elm_do_cmd ext g ''ATZ'')) = 5000 \<and>
    elm_memory (fst (elm_do_cmd ext g ''ATZ'')) \<and>
    elm_adaptive (fst (elm_do_cmd ext g ''ATZ'')) = 1 \<and>
    \<not> elm_can_auto_format (fst (elm_do_cmd ext g ''ATZ'')) \<and>
    elm_can_flow_control (fst (elm_do_cmd ext g ''ATZ'')) \<and>
    elm_can_silent_mode (fst (elm_do_cmd ext g ''ATZ'')) \<and>
    \<not> elm_long_message (fst (elm_do_cmd ext g ''ATZ'')) \<and>
    elm_protocol (fst (elm_do_cmd ext g ''ATZ'')) = CHR ''0'' \<and>
    elm_protocol_auto (fst (elm_do_cmd ext g ''ATZ'')) \<and>
    elm_previous_cmd (fst (elm_do_cmd ext g ''ATZ'')) = [] \<and>
    \<not> elm_monitor (fst (elm_do_cmd ext g ''ATZ'')) \<and>
    elm_filter (fst (elm_do_cmd ext g ''ATZ'')) = \<lparr>flt_pattern = 0, flt_mask = 0\<rparr> \<and>
    occupied (pass_filter (fst (elm_do_cmd ext g ''ATZ''))) = [] \<and>
    occupied (block_filter (fst (elm_do_cmd ext g ''ATZ''))) = [] \<and>
    elm_device_identifier (fst (elm_do_cmd ext g ''ATZ'')) = elm_device_identifier g"
proof -
  let ?g = "g\<lparr>elm_previous_cmd := ''ATZ''\<rparr>"
  have f: "fst (elm_do_cmd ext g ''ATZ'') = elm_reset ?g"
    by (simp add: dispatch_ATZ)
  have "filters_inv ?g"
    using assms by (simp add: filters_inv_def)
  then have o: "occupied (pass_filter (elm_reset ?g)) = []"
      "occupied (block_filter (elm_reset ?g)) = []"
    by (rule occupied_reset)+
  show ?thesis
    unfolding f using o
    by (simp add: elm_reset_def ELM_TIMEOUT_def ELM_DEFAULT_PROTOCOL_def)
qed

text \<open>
  The theorem at the example session, whose tables hold a pass and a block rule and whose
  timeout is 0.
\<close>

theorem atz_restores_all_but_identifier_witness:
  "filters_inv filter_example \<and>
   occupied (pass_filter filter_example) \<noteq> [] \<and>
   elm_timeout filter_example = 0 \<and>
   elm_timeout (fst (elm_do_cmd zero_ext filter_example ''ATZ'')) = 5000 \<and>
   elm_echo (fst (elm_do_cmd zero_ext filter_example ''ATZ'')) \<and>
   occupied (pass_filter (fst (elm_do_cmd zero_ext filter_example ''ATZ''))) = [] \<and>
   occupied (block_filter (fst (elm_do_cmd zero_ext filter_example ''ATZ''))) = [] \<and>
   elm_device_identifier (fst (elm_do_cmd zero_ext filter_example ''ATZ''))
     = elm_device_identifier filter_example"
proof -
  have "occupied (pass_filter filter_example) \<noteq> []" "elm_timeout filter_example = 0"
    by (simp_all add: filter_example_def table_example_def occupied_def elm_zeroed_def)
  then show ?thesis
    using atz_restores_all_but_identifier [OF filters_inv_example, of zero_ext]
      filters_inv_example
    by blast
qed

text \<open>
  The claim as it stands fails on the device identifier. In a session that has dispatched
  \<^verbatim>\<open>AT@3\<close> the identifier after \<^verbatim>\<open>ATZ\<close> is the empty string that command stored; in a fresh
  session it is the NULL pointer. No single default is restored.
\<close>

theorem atz_device_identifier_counterexample:
  "elm_device_identifier
     (fst (elm_do_cmd zero_ext
        (fst (elm_do_cmd zero_ext (elm_session_start ''bt'') ''AT@3'')) ''ATZ'')) = Some [] \<and>
   elm_device_identifier
     (fst (elm_do_cmd zero_ext (elm_session_start ''bt'') ''ATZ'')) = None"
  by (simp add: dispatch_ATZ dispatch_AT_at3 elm_reset_def session_start_fields
      del: elm_globals_t.simps)

subsection \<open>C4: the three reset commands\<close>

text \<open>
  Claim C4, amended. \<^verbatim>\<open>ATZ\<close>, \<^verbatim>\<open>ATWS\<close> and \<^verbatim>\<open>ATD\<close> each run \<^verbatim>\<open>elm_reset\<close> on the session (the
  line was stored first, and the reset empties it again). Then \<^verbatim>\<open>ATZ\<close> waits 100 ticks and
  \<^verbatim>\<open>ATWS\<close> 50 ticks, and both write the version string and the newline; \<^verbatim>\<open>ATD\<close> writes
  \<^verbatim>\<open>OK\<close> and the newline. The newline is CR LF, since the reset has switched linefeed on.
\<close>

theorem reset_commands_effect:
  "elm_do_cmd ext g ''ATZ'' =
     (elm_reset (g\<lparr>elm_previous_cmd := ''ATZ''\<rparr>),
      [TaskDelay 100, Write ELM_VERSION_STRING, Write NEWLINE_CRLF]) \<and>
   elm_do_cmd ext g ''ATWS'' =
     (elm_reset (g\<lparr>elm_previous_cmd := ''ATWS''\<rparr>),
      [TaskDelay 50, Write ELM_VERSION_STRING, Write NEWLINE_CRLF]) \<and>
   elm_do_cmd ext g ''ATD'' =
     (elm_reset (g\<lparr>elm_previous_cmd := ''ATD''\<rparr>),
      [Write ELM_OK_PROMPT, Write NEWLINE_CRLF])"
  by (simp only: dispatch_ATZ dispatch_ATWS dispatch_ATD simp_thms)

text \<open>The output of the three commands in a fresh session.\<close>

theorem reset_commands_effect_witness:
  "written (snd (elm_do_cmd zero_ext (elm_session_start ''bt'') ''ATZ''))
     = ''ELM327 v1.3a Teslap'' @ [CHR 0x0D, CHR 0x0A] \<and>
   written (snd (elm_do_cmd zero_ext (elm_session_start ''bt'') ''ATWS''))
     = ''ELM327 v1.3a Teslap'' @ [CHR 0x0D, CHR 0x0A] \<and>
   written (snd (elm_do_cmd zero_ext (elm_session_start ''bt'') ''ATD''))
     = ''OK'' @ [CHR 0x0D, CHR 0x0A] \<and>
   elm_previous_cmd (fst (elm_do_cmd zero_ext (elm_session_start ''bt'') ''ATD'')) = []"
  using reset_commands_effect [of zero_ext "elm_session_start ''bt''"]
  by (simp add: ELM_VERSION_STRING_def ELM_OK_PROMPT_def NEWLINE_CRLF_def elm_reset_def)

text \<open>
  The claim as it stands fails for \<^verbatim>\<open>ATD\<close>: what it writes is \<^verbatim>\<open>OK\<close>, not the version
  string.
\<close>

theorem atd_output_counterexample:
  "written (snd (elm_do_cmd zero_ext (elm_session_start ''bt'') ''ATD''))
     = ''OK'' @ [CHR 0x0D, CHR 0x0A] \<and>
   written (snd (elm_do_cmd zero_ext (elm_session_start ''bt'') ''ATD''))
     \<noteq> ELM_VERSION_STRING @ NEWLINE_CRLF"
  by (simp add: dispatch_ATD ELM_VERSION_STRING_def ELM_OK_PROMPT_def NEWLINE_CRLF_def)

subsection \<open>C6: the empty line\<close>

text \<open>
  Claim C6, amended. Dispatching an empty line is dispatching the stored line: the two
  calls return the same session state and the same events. The empty line is not stored,
  and in every session state that \<^verbatim>\<open>elm_do\<close> reaches (\<open>stored_line_ok\<close>: the start state and
  every state after a dispatch) it leaves the stored line as it was. After a non-empty line
  the stored line is that line, for every line but two kinds (leading spaces passed over,
  letters of either case): the line that is \<^verbatim>\<open>ATZ\<close>, \<^verbatim>\<open>ATWS\<close> or \<^verbatim>\<open>ATD\<close>, and the line that is
  \<^verbatim>\<open>WIFI\<close> with \<^verbatim>\<open>STOP\<close>, or with \<^verbatim>\<open>STA\<close> or \<^verbatim>\<open>AP\<close> and an argument; after these the stored
  line is empty. So the empty line sent after any line of the first sort, whether the
  line was a command or was answered \<^verbatim>\<open>?\<close>, does what that line does when sent again, and
  the empty line sent after a line of the two kinds is answered \<^verbatim>\<open>?\<close> and nothing is
  repeated. The last conjuncts place some lines: \<^verbatim>\<open>ATI\<close>, \<^verbatim>\<open>ATAL\<close>, \<^verbatim>\<open>ATE0\<close>, \<^verbatim>\<open>ATH1\<close>,
  \<^verbatim>\<open>ATD1\<close>, \<^verbatim>\<open>WIFI STA\<close> without a name, \<^verbatim>\<open>WIFI SCAN\<close> and \<^verbatim>\<open>STFAC\<close> are repeated.
\<close>

theorem empty_line_repeats_stored_line:
  "elm_do_cmd ext g [] = elm_do_cmd ext g (elm_previous_cmd g) \<and>
   (stored_line_ok g \<longrightarrow> elm_previous_cmd (fst (elm_do_cmd ext g [])) = elm_previous_cmd g) \<and>
   (cmd \<noteq> [] \<longrightarrow>
      elm_previous_cmd (fst (elm_do_cmd ext g cmd))
        = (if empties_stored_line (skip_spaces cmd) then [] else cmd)) \<and>
   (cmd \<noteq> [] \<and> \<not> empties_stored_line (skip_spaces cmd) \<longrightarrow>
      elm_do_cmd ext' (fst (elm_do_cmd ext g cmd)) []
        = elm_do_cmd ext' (fst (elm_do_cmd ext g cmd)) cmd) \<and>
   (cmd \<noteq> [] \<and> empties_stored_line (skip_spaces cmd) \<longrightarrow>
      elm_do_cmd ext' (fst (elm_do_cmd ext g cmd)) []
        = (fst (elm_do_cmd ext g cmd),
           [Write ELM_QUERY_PROMPT, Write (ELM_NEWLINE (fst (elm_do_cmd ext g cmd)))])) \<and>
   stored_line_ok (elm_session_start tag) \<and>
   stored_line_ok (fst (elm_do_cmd ext g cmd)) \<and>
   empties_stored_line ''ATZ'' \<and> empties_stored_line ''atws'' \<and> empties_stored_line ''ATD'' \<and>
   empties_stored_line ''WIFI STOP'' \<and> empties_stored_line ''WIFI STA net pw'' \<and>
   empties_stored_line ''WIFI AP net pw'' \<and>
   \<not> empties_stored_line ''ATI'' \<and> \<not> empties_stored_line ''ATAL'' \<and>
   \<not> empties_stored_line ''ATE0'' \<and> \<not> empties_stored_line ''ATH1'' \<and>
   \<not> empties_stored_line ''ATD1'' \<and> \<not> empties_stored_line ''WIFI STA'' \<and>
   \<not> empties_stored_line ''WIFI SCAN'' \<and> \<not> empties_stored_line ''STFAC''"
proof -
  let ?g1 = "fst (elm_do_cmd ext g cmd)"
  have a: "stored_line_ok g \<longrightarrow>
      elm_previous_cmd (fst (elm_do_cmd ext g [])) = elm_previous_cmd g"
    by (simp add: elm_do_cmd_stored_line stored_line_ok_def)
  have b: "cmd \<noteq> [] \<longrightarrow>
      elm_previous_cmd ?g1 = (if empties_stored_line (skip_spaces cmd) then [] else cmd)"
    by (simp add: elm_do_cmd_stored_line)
  have c: "cmd \<noteq> [] \<and> \<not> empties_stored_line (skip_spaces cmd) \<longrightarrow>
      elm_do_cmd ext' ?g1 [] = elm_do_cmd ext' ?g1 cmd"
    using elm_do_cmd_empty [of ext' ?g1] b by auto
  have d: "cmd \<noteq> [] \<and> empties_stored_line (skip_spaces cmd) \<longrightarrow>
      elm_do_cmd ext' ?g1 [] = (?g1, [Write ELM_QUERY_PROMPT, Write (ELM_NEWLINE ?g1)])"
    using dispatch_empty_stored [of ?g1 ext'] b by auto
  show ?thesis
    using a b c d elm_do_cmd_empty [of ext g] stored_line_ok_start [of tag]
      stored_line_ok_after [of ext g cmd] empties_examples
    by blast
qed

text \<open>
  The theorem in the session that has dispatched \<^verbatim>\<open>ATI\<close>: the empty line writes the version
  string again and the stored line stays \<^verbatim>\<open>ATI\<close>. And in the session that has dispatched
  \<^verbatim>\<open>ATD\<close>: the stored line is empty and the empty line is answered \<^verbatim>\<open>?\<close>.
\<close>

theorem empty_line_repeats_stored_line_witness:
  "stored_line_ok (fst (elm_do_cmd zero_ext (elm_session_start ''bt'') ''ATI'')) \<and>
   elm_previous_cmd (fst (elm_do_cmd zero_ext (elm_session_start ''bt'') ''ATI'')) = ''ATI'' \<and>
   written (snd (elm_do_cmd zero_ext
       (fst (elm_do_cmd zero_ext (elm_session_start ''bt'') ''ATI'')) []))
     = ''ELM327 v1.3a Teslap'' @ [CHR 0x0D, CHR 0x0A] \<and>
   elm_previous_cmd (fst (elm_do_cmd zero_ext
       (fst (elm_do_cmd zero_ext (elm_session_start ''bt'') ''ATI'')) [])) = ''ATI'' \<and>
   elm_previous_cmd (fst (elm_do_cmd zero_ext (elm_session_start ''bt'') ''ATD'')) = [] \<and>
   written (snd (elm_do_cmd zero_ext
       (fst (elm_do_cmd zero_ext (elm_session_start ''bt'') ''ATD'')) []))
     = ''?'' @ [CHR 0x0D, CHR 0x0A]"
proof -
  let ?g0 = "elm_session_start ''bt''"
  let ?g1 = "fst (elm_do_cmd zero_ext ?g0 ''ATI'')"
  let ?g2 = "fst (elm_do_cmd zero_ext ?g0 ''ATD'')"
  note t0 = empty_line_repeats_stored_line [of zero_ext ?g0 "''ATI''" zero_ext "''bt''"]
  note t1 = empty_line_repeats_stored_line [of zero_ext ?g1 "''ATI''" zero_ext "''bt''"]
  note t2 = empty_line_repeats_stored_line [of zero_ext ?g0 "''ATD''" zero_ext "''bt''"]
  have i: "\<not> empties_stored_line (skip_spaces ''ATI'')"
    and d: "empties_stored_line (skip_spaces ''ATD'')"
    using t0 by (simp_all add: skip_spaces_def)
  have ok: "stored_line_ok ?g1" using t0 by blast
  have p: "elm_previous_cmd ?g1 = ''ATI''"
    using t0 i by simp
  have e: "elm_do_cmd zero_ext ?g1 [] = elm_do_cmd zero_ext ?g1 ''ATI''"
    using t0 i by simp
  have k: "elm_previous_cmd (fst (elm_do_cmd zero_ext ?g1 [])) = ''ATI''"
  proof -
    from t1 have "stored_line_ok ?g1 \<longrightarrow>
        elm_previous_cmd (fst (elm_do_cmd zero_ext ?g1 [])) = elm_previous_cmd ?g1"
      by (rule conjunct2 [THEN conjunct1])
    with ok p show ?thesis by simp
  qed
  have w: "written (snd (elm_do_cmd zero_ext ?g1 ''ATI''))
      = ''ELM327 v1.3a Teslap'' @ [CHR 0x0D, CHR 0x0A]"
    by (simp add: dispatch_ATI ELM_VERSION_STRING_def ELM_NEWLINE_def NEWLINE_CRLF_def
        session_start_fields)
  have p2: "elm_previous_cmd ?g2 = []"
    using t2 d by simp
  have q: "elm_do_cmd zero_ext ?g2 [] =
      (?g2, [Write ELM_QUERY_PROMPT, Write (ELM_NEWLINE ?g2)])"
    using t2 d by simp
  have l: "elm_linefeed ?g2"
    by (simp add: dispatch_ATD elm_reset_def)
  have w2: "written (snd (elm_do_cmd zero_ext ?g2 [])) = ''?'' @ [CHR 0x0D, CHR 0x0A]"
    unfolding q using l
    by (simp add: ELM_QUERY_PROMPT_def ELM_NEWLINE_def NEWLINE_CRLF_def)
  show ?thesis using ok p e k w p2 w2 by simp
qed

text \<open>
  The claim as it stands fails after a reset: \<^verbatim>\<open>ATZ\<close> is accepted and answered with the
  version string, and the empty line that follows is answered with \<^verbatim>\<open>?\<close>, where \<^verbatim>\<open>ATZ\<close>
  dispatched again would write the version string again.
\<close>

theorem empty_line_after_reset_counterexample:
  "written (snd (elm_do_cmd zero_ext
       (fst (elm_do_cmd zero_ext (elm_session_start ''bt'') ''ATZ'')) []))
     = ''?'' @ [CHR 0x0D, CHR 0x0A] \<and>
   written (snd (elm_do_cmd zero_ext
       (fst (elm_do_cmd zero_ext (elm_session_start ''bt'') ''ATZ'')) ''ATZ''))
     = ''ELM327 v1.3a Teslap'' @ [CHR 0x0D, CHR 0x0A]"
proof -
  let ?g1 = "fst (elm_do_cmd zero_ext (elm_session_start ''bt'') ''ATZ'')"
  have p: "elm_previous_cmd ?g1 = []" and l: "elm_linefeed ?g1"
    by (simp_all add: dispatch_ATZ elm_reset_def)
  show ?thesis
    using dispatch_empty_stored [OF p, of zero_ext] l
    by (simp add: dispatch_ATZ ELM_QUERY_PROMPT_def ELM_VERSION_STRING_def ELM_NEWLINE_def
        NEWLINE_CRLF_def)
qed

section \<open>Proofs: the rate limiter\<close>

lemma index_of_less: "x \<in> set xs \<Longrightarrow> index_of xs x < length xs"
  by (induction xs) auto

lemma can_filter_id_from_eq:
  "length l = can_id_count \<Longrightarrow> i \<le> can_id_count \<Longrightarrow>
   can_filter_id_from l ident ts i =
     (if ident \<in> set (drop i can_id) \<and>
         can_id_delay_us \<le> ts - l ! (i + index_of (drop i can_id) ident)
      then (True, l[i + index_of (drop i can_id) ident := ts])
      else (False, l))"
proof (induction l ident ts i rule: can_filter_id_from.induct)
  case (1 l ident ts i)
  show ?case
  proof (cases "i < can_id_count")
    case False
    then show ?thesis
      using "1.prems" by (subst can_filter_id_from.simps) (simp add: can_id_count_def)
  next
    case True
    then have d: "drop i can_id = can_id ! i # drop (Suc i) can_id"
      by (simp add: can_id_count_def Cons_nth_drop_Suc)
    show ?thesis
    proof (cases "ident = can_id ! i")
      case True
      then show ?thesis
        using \<open>i < can_id_count\<close> unfolding d
        by (subst can_filter_id_from.simps) simp
    next
      case False
      then show ?thesis
        using "1.IH" [OF True False] "1.prems" True unfolding d
        by (subst can_filter_id_from.simps) simp
    qed
  qed
qed

lemma can_filter_id_eq:
  assumes "length l = can_id_count"
  shows "can_filter_id l ident ts =
     (if ident \<in> set can_id \<and> can_id_delay_us \<le> ts - l ! index_of can_id ident
      then (True, l[index_of can_id ident := ts])
      else (False, l))"
  using can_filter_id_from_eq [OF assms, of 0 ident ts] by (simp add: can_filter_id_def)


lemma can_id_delay_us_value: "can_id_delay_us = 90909"
  by (simp add: can_id_delay_us_def)

lemma can_id_count_value: "can_id_count = 128"
  by (simp add: can_id_count_def can_id_def)

lemma can_id_0x132: "0x132 \<in> set can_id" "index_of can_id 0x132 = 10"
  by (simp_all add: can_id_def)

lemma can_id_0x133: "0x133 \<notin> set can_id"
  by (simp add: can_id_def)

subsection \<open>C2: which frames the limiter forwards\<close>

text \<open>
  Claim C2, amended. A frame is forwarded exactly when its identifier is in the allow-list
  and its 32-bit timestamp minus the timestamp stored for that identifier is at least
  \<open>can_id_delay_us = 90909\<close>; the subtraction wraps at \<open>2^32\<close>, and the stored timestamp is 0
  after \<^verbatim>\<open>can_init\<close> and the timestamp of the last forwarded frame of that identifier
  afterwards. Exactly when the frame is forwarded its timestamp is stored, in the slot of
  its identifier, and nothing else changes. When a frame of an allow-listed identifier at
  time \<open>t\<close> is forwarded, the next frame of that identifier, at \<open>t + d\<close>, is forwarded if and
  only if \<open>d\<close> is at least the minimum interval. A frame whose identifier is not in the
  allow-list is never forwarded and leaves the table as it was. The receive path of
  \<^verbatim>\<open>can_task\<close> calls the limiter with the low 32 bits of its 64-bit time.
\<close>

theorem rate_limiter_forwards:
  assumes "length l = can_id_count"
  shows "can_filter_id l ident ts =
       (if ident \<in> set can_id \<and> can_id_delay_us \<le> ts - l ! index_of can_id ident
        then (True, l[index_of can_id ident := ts])
        else (False, l)) \<and>
     can_id_delay_us = 90909 \<and>
     (ident \<in> set can_id \<and> fst (can_filter_id l ident t) \<longrightarrow>
        fst (can_filter_id (snd (can_filter_id l ident t)) ident (t + d))
          = (can_id_delay_us \<le> d)) \<and>
     (ident \<notin> set can_id \<longrightarrow> can_filter_id l ident ts = (False, l)) \<and>
     can_task_rx l ident ts64 = can_filter_id l ident (ucast ts64)"
proof -
  have two: "fst (can_filter_id (snd (can_filter_id l ident t)) ident (t + d))
      = (can_id_delay_us \<le> d)"
    if m: "ident \<in> set can_id" and f: "fst (can_filter_id l ident t)"
  proof -
    let ?k = "index_of can_id ident"
    have k: "?k < length l"
      using index_of_less [OF m] assms by (simp add: can_id_count_def)
    have s: "snd (can_filter_id l ident t) = l[?k := t]"
      using f by (simp add: can_filter_id_eq [OF assms] split: if_splits)
    have "length (l[?k := t]) = can_id_count" using assms by simp
    from can_filter_id_eq [OF this, of ident "t + d"] show ?thesis
      unfolding s using m k by simp
  qed
  show ?thesis
    using can_filter_id_eq [OF assms, of ident ts] two
    by (simp add: can_id_delay_us_value can_task_rx_def)
qed

text \<open>
  The theorem after \<^verbatim>\<open>can_init\<close>, for identifier \<open>0x132\<close>: a frame at 100 ms is forwarded,
  one 50 ms later is dropped, one 100 ms later is forwarded; \<open>0x133\<close> is not in the list.
\<close>

theorem rate_limiter_forwards_witness:
  "length can_id_last_us_init = can_id_count \<and>
   0x132 \<in> set can_id \<and>
   fst (can_filter_id can_id_last_us_init 0x132 100000) \<and>
   \<not> fst (can_filter_id (snd (can_filter_id can_id_last_us_init 0x132 100000)) 0x132
           (100000 + 50000)) \<and>
   fst (can_filter_id (snd (can_filter_id can_id_last_us_init 0x132 100000)) 0x132
         (100000 + 100000)) \<and>
   can_filter_id can_id_last_us_init 0x133 100000 = (False, can_id_last_us_init)"
proof -
  have l: "length can_id_last_us_init = can_id_count"
    by (simp add: can_id_last_us_init_def)
  have z: "can_id_last_us_init ! 10 = 0"
    by (simp add: can_id_last_us_init_def can_id_count_value)
  note t = rate_limiter_forwards [OF l]
  have a: "fst (can_filter_id can_id_last_us_init 0x132 100000)"
    using t [of "0x132" 100000 0 0 0] by (simp add: can_id_0x132 z can_id_delay_us_value)
  have b: "\<not> fst (can_filter_id (snd (can_filter_id can_id_last_us_init 0x132 100000)) 0x132
           (100000 + 50000))"
    using t [of "0x132" 0 100000 50000 0] a by (simp add: can_id_0x132 can_id_delay_us_value)
  have c: "fst (can_filter_id (snd (can_filter_id can_id_last_us_init 0x132 100000)) 0x132
           (100000 + 100000))"
    using t [of "0x132" 0 100000 100000 0] a by (simp add: can_id_0x132 can_id_delay_us_value)
  have d: "can_filter_id can_id_last_us_init 0x133 100000 = (False, can_id_last_us_init)"
    using t [of "0x133" 100000 0 0 0] by (simp add: can_id_0x133)
  show ?thesis using l a b c d can_id_0x132 by simp
qed

text \<open>
  The claim as it stands fails in two ways. After \<^verbatim>\<open>can_init\<close> the stored timestamps are 0,
  so a frame of \<open>0x132\<close> whose 32-bit timestamp is 10 is dropped although no frame of that
  identifier was forwarded before, while the frame 100000 microseconds later is forwarded:
  the interval is above the minimum and only one of the two is forwarded. And the receive
  path cuts its 64-bit time to 32 bits: after a frame forwarded at 0.1 s, the frame that
  arrives \<open>2^32 + 10\<close> microseconds later (some 71 minutes) is dropped, the difference of the
  32-bit timestamps being 10.
\<close>

theorem first_frame_dropped_counterexample:
  "0x132 \<in> set can_id \<and>
   can_id_delay_us \<le> 100000 \<and>
   \<not> fst (can_filter_id can_id_last_us_init 0x132 10) \<and>
   fst (can_filter_id (snd (can_filter_id can_id_last_us_init 0x132 10)) 0x132 (10 + 100000)) \<and>
   fst (can_task_rx can_id_last_us_init 0x132 100000) \<and>
   \<not> fst (can_task_rx (snd (can_task_rx can_id_last_us_init 0x132 100000)) 0x132
           (100000 + 4294967296 + 10))"
proof -
  have l: "length can_id_last_us_init = can_id_count"
    by (simp add: can_id_last_us_init_def)
  have z: "can_id_last_us_init ! 10 = 0"
    by (simp add: can_id_last_us_init_def can_id_count_value)
  have a: "can_filter_id can_id_last_us_init 0x132 10 = (False, can_id_last_us_init)"
    by (simp add: can_filter_id_eq [OF l] can_id_0x132 z can_id_delay_us_value)
  have b: "fst (can_filter_id can_id_last_us_init 0x132 (10 + 100000))"
    by (simp add: can_filter_id_eq [OF l] can_id_0x132 z can_id_delay_us_value)
  have c: "can_task_rx can_id_last_us_init 0x132 100000
      = (True, can_id_last_us_init[10 := 100000])"
    by (simp add: can_task_rx_def can_filter_id_eq [OF l] can_id_0x132 z can_id_delay_us_value)
  have l': "length (can_id_last_us_init[10 := 100000]) = can_id_count"
    using l by simp
  have u: "(ucast (100000 + 4294967296 + 10 :: 64 word) :: 32 word) = 100010"
    by simp
  have n: "can_id_last_us_init[10 := 100000] ! 10 = 100000"
    using l by (simp add: can_id_count_value)
  have d: "\<not> fst (can_task_rx (can_id_last_us_init[10 := 100000]) 0x132
           (100000 + 4294967296 + 10))"
    unfolding can_task_rx_def u can_filter_id_eq [OF l']
    by (simp add: can_id_0x132 n can_id_delay_us_value)
  show ?thesis
    using b d by (simp add: a c can_id_0x132 can_id_delay_us_value)
qed

section \<open>Proofs: the transport\<close>

lemma sent_append: "sent (a @ b) = sent a @ sent b"
  by (induction a rule: sent.induct) simp_all

lemma spp_write_fifo:
  assumes "spp_handle s = handle" and "spp_tx_buffer s = Some t"
  shows "\<exists>t'. spp_tx_buffer (fst (spp_write env s handle)) = Some t' \<and>
           rb_size t' = rb_size t \<and>
           sent (snd (spp_write env s handle)) @ rb_data t' = rb_data t \<and>
           spp_handle (fst (spp_write env s handle)) = handle"
  using assms
  by (simp add: spp_write_def xRingbufferReceiveUpTo_def Let_def)

lemma take_min_length: "take (min k (min (length xs) n)) xs = take (min k n) xs"
  by (simp add: min_def)

lemma BT_SPP_DATA_MAX_SIZE_pos: "BT_SPP_DATA_MAX_SIZE \<noteq> 0"
  by (simp add: BT_SPP_DATA_MAX_SIZE_def)

lemma spp_write_data:
  assumes "spp_handle s = handle" and "spp_tx_buffer s = Some t" and "rb_data t \<noteq> []"
  shows "snd (spp_write env s handle)
           = [EspSppWrite handle
                (take (min BT_SPP_DATA_MAX_SIZE (rb_size t - rb_read t)) (rb_data t))]"
    and "spp_writing (fst (spp_write env s handle)) = spp_writing s"
  using assms
  by (simp_all add: spp_write_def xRingbufferReceiveUpTo_def Let_def take_min_length
      BT_SPP_DATA_MAX_SIZE_pos)

lemma bt_write_rejected:
  assumes "spp_handle s = handle" and "spp_tx_buffer s = Some tx" and "buf \<noteq> []"
    and "xRingbufferGetCurFreeSize tx < length buf"
  shows "bt_write env s handle buf =
     (let (s1, e1) =
            (if spp_writing s \<and> now env - uint (spp_last_us s) > 5 * 1000000
             then spp_write env s handle else (s, []));
          (s2, e2) =
            (if \<not> spp_writing s1
             then spp_write env (s1\<lparr>spp_writing := True\<rparr>) handle else (s1, []))
      in (Inr 0, s2, e1 @ e2))"
  using assms by (simp add: bt_write_def xRingbufferSend_def)

lemma bt_write_accepted:
  assumes "spp_handle s = handle" and "spp_tx_buffer s = Some tx" and "buf \<noteq> []"
    and "length buf \<le> xRingbufferGetCurFreeSize tx"
  shows "bt_write env s handle buf =
     (let s1 = s\<lparr>spp_tx_buffer := Some (tx\<lparr>rb_data := rb_data tx @ buf\<rparr>)\<rparr>;
          free = int (xRingbufferGetCurFreeSize (tx\<lparr>rb_data := rb_data tx @ buf\<rparr>));
          s1 = (if spp_tx_buffer_min_free s1 > free
                then s1\<lparr>spp_tx_buffer_min_free := free\<rparr> else s1);
          (s2, e2) =
            (if \<not> spp_writing s1
             then spp_write env (s1\<lparr>spp_writing := True\<rparr>) handle else (s1, []))
      in (Inr (length buf), s2, e2))"
  using assms by (simp add: bt_write_def xRingbufferSend_def)

subsection \<open>C5: a write takes all of the buffer or none of it\<close>

text \<open>
  Claim C5. On the open connection (the handle is the active one and the transmit ring
  exists), for a non-empty buffer: when the bytes fit the free space of the transmit ring,
  \<^verbatim>\<open>bt_write\<close> returns their number and the ring has taken all of them; otherwise it returns
  0 and the ring has taken none. Taken is meant up to the drain the call may trigger: the
  bytes handed to \<^verbatim>\<open>esp_spp_write\<close> during the call, followed by the content of the ring
  after it, are the old content followed by the whole buffer, or the old content alone,
  never the old content and a proper part of the buffer. The call returns 0 exactly when
  the bytes do not fit.
\<close>

theorem bt_write_all_or_nothing:
  assumes "spp_handle s = handle" and "spp_tx_buffer s = Some tx" and "buf \<noteq> []"
  shows "(\<exists>tx'. spp_tx_buffer (fst (snd (bt_write env s handle buf))) = Some tx' \<and>
            rb_size tx' = rb_size tx \<and>
            (if length buf \<le> xRingbufferGetCurFreeSize tx
             then fst (bt_write env s handle buf) = Inr (length buf) \<and>
                  sent (snd (snd (bt_write env s handle buf))) @ rb_data tx' = rb_data tx @ buf
             else fst (bt_write env s handle buf) = Inr 0 \<and>
                  sent (snd (snd (bt_write env s handle buf))) @ rb_data tx' = rb_data tx)) \<and>
         (fst (bt_write env s handle buf) = Inr 0)
           = (xRingbufferGetCurFreeSize tx < length buf)"
proof (cases "length buf \<le> xRingbufferGetCurFreeSize tx")
  case True
  let ?tx1 = "tx\<lparr>rb_data := rb_data tx @ buf\<rparr>"
  let ?s0 = "s\<lparr>spp_tx_buffer := Some ?tx1\<rparr>"
  let ?free = "int (xRingbufferGetCurFreeSize ?tx1)"
  let ?s1 = "if spp_tx_buffer_min_free ?s0 > ?free
             then ?s0\<lparr>spp_tx_buffer_min_free := ?free\<rparr> else ?s0"
  have h1: "spp_handle ?s1 = handle" and t1: "spp_tx_buffer ?s1 = Some ?tx1"
    using assms by simp_all
  show ?thesis
  proof (cases "spp_writing s")
    case True
    then have "bt_write env s handle buf = (Inr (length buf), ?s1, [])"
      using bt_write_accepted [OF assms \<open>length buf \<le> xRingbufferGetCurFreeSize tx\<close>, of env]
      by (simp add: Let_def)
    then show ?thesis
      using \<open>length buf \<le> xRingbufferGetCurFreeSize tx\<close> assms(3) by simp
  next
    case False
    let ?s2 = "?s1\<lparr>spp_writing := True\<rparr>"
    have b: "bt_write env s handle buf =
        (Inr (length buf), fst (spp_write env ?s2 handle), snd (spp_write env ?s2 handle))"
      using bt_write_accepted [OF assms \<open>length buf \<le> xRingbufferGetCurFreeSize tx\<close>, of env] False
      by (simp add: Let_def case_prod_beta)
    have "spp_handle ?s2 = handle" "spp_tx_buffer ?s2 = Some ?tx1"
      using assms by simp_all
    from spp_write_fifo [OF this, of env] show ?thesis
      unfolding b using \<open>length buf \<le> xRingbufferGetCurFreeSize tx\<close> assms(3) by auto
  qed
next
  case False
  then have full: "xRingbufferGetCurFreeSize tx < length buf" by simp
  let ?r1 = "if spp_writing s \<and> now env - uint (spp_last_us s) > 5 * 1000000
             then spp_write env s handle else (s, [])"
  let ?s1 = "fst ?r1"
  let ?r2 = "if \<not> spp_writing ?s1
             then spp_write env (?s1\<lparr>spp_writing := True\<rparr>) handle else (?s1, [])"
  have b: "bt_write env s handle buf = (Inr 0, fst ?r2, snd ?r1 @ snd ?r2)"
    using bt_write_rejected [OF assms full, of env] by (simp add: Let_def case_prod_beta)
  obtain t1 where t1: "spp_tx_buffer ?s1 = Some t1" "rb_size t1 = rb_size tx"
      "sent (snd ?r1) @ rb_data t1 = rb_data tx" "spp_handle ?s1 = handle"
    using spp_write_fifo [OF assms(1,2), of env] assms(1,2) by (cases "spp_writing s \<and> now env - uint (spp_last_us s) > 5 * 1000000") auto
  obtain t2 where t2: "spp_tx_buffer (fst ?r2) = Some t2" "rb_size t2 = rb_size t1"
      "sent (snd ?r2) @ rb_data t2 = rb_data t1"
  proof (cases "spp_writing ?s1")
    case True
    then show ?thesis using that [of t1] t1 by simp
  next
    case False
    have "spp_handle (?s1\<lparr>spp_writing := True\<rparr>) = handle"
        "spp_tx_buffer (?s1\<lparr>spp_writing := True\<rparr>) = Some t1"
      using t1 by simp_all
    from spp_write_fifo [OF this, of env] show ?thesis
      using that False by auto
  qed
  have "sent (snd ?r1 @ snd ?r2) @ rb_data t2 = rb_data tx"
    using t1(3) t2(3) by (simp add: sent_append)
  then show ?thesis
    unfolding b using False full t2(1,2) t1(2) by simp
qed

lemma bt_full_fields:
  "spp_handle bt_full = 129"
  "spp_tx_buffer bt_full = Some \<lparr>rb_size = BT_SPP_RINGBUF_TX_SIZE, rb_read = 0, rb_data = replicate 10238 0x41\<rparr>"
  "spp_writing bt_full" "spp_last_us bt_full = 1000"
  "spp_handle bt_idle_full = 129"
  "spp_tx_buffer bt_idle_full
     = Some \<lparr>rb_size = BT_SPP_RINGBUF_TX_SIZE, rb_read = 0, rb_data = replicate 10238 0x41\<rparr>"
  "\<not> spp_writing bt_idle_full"
  by (simp_all add: bt_full_def bt_idle_full_def)

lemma bt_full_free:
  "xRingbufferGetCurFreeSize \<lparr>rb_size = BT_SPP_RINGBUF_TX_SIZE, rb_read = 0, rb_data = replicate 10238 0x41\<rparr> = 2"
  by (simp add: xRingbufferGetCurFreeSize_def BT_SPP_RINGBUF_TX_SIZE_def)

text \<open>
  The theorem at the idle example connection, whose ring has two bytes free: two bytes are
  taken, three are not.
\<close>

theorem bt_write_all_or_nothing_witness:
  "spp_handle bt_idle_full = 129 \<and>
   spp_tx_buffer bt_idle_full
     = Some \<lparr>rb_size = BT_SPP_RINGBUF_TX_SIZE, rb_read = 0, rb_data = replicate 10238 0x41\<rparr> \<and>
   fst (bt_write env_7s bt_idle_full 129 [1, 2]) = Inr 2 \<and>
   fst (bt_write env_7s bt_idle_full 129 [1, 2, 3]) = Inr 0"
proof -
  have a: "fst (bt_write env_7s bt_idle_full 129 [1, 2]) = Inr 2"
    using bt_write_all_or_nothing [OF bt_full_fields(5) bt_full_fields(6), of "[1, 2]" env_7s]
    by (auto simp: bt_full_free)
  have b: "fst (bt_write env_7s bt_idle_full 129 [1, 2, 3]) = Inr 0"
    using bt_write_all_or_nothing [OF bt_full_fields(5) bt_full_fields(6), of "[1, 2, 3]" env_7s]
    by (simp add: bt_full_free)
  show ?thesis using a b bt_full_fields(5,6) by simp
qed

lemma uint_truncated_le: "0 \<le> t \<Longrightarrow> uint (word_of_int t :: 32 word) \<le> t"
  by (simp add: uint_word_of_int zmod_le_nonneg_dividend)

subsection \<open>C7: what a write does when the ring is full\<close>

text \<open>
  Claim C7. When the bytes do not fit the transmit ring, \<^verbatim>\<open>bt_write\<close> returns 0 in every
  case. If a drain is believed in flight and more than 5 seconds have passed since the last
  successful send (\<open>t_last\<close> is its time, of which \<^verbatim>\<open>spp_last_us\<close> holds the low 32 bits), the
  call is one forced drain: with data queued, the first chunk goes to \<^verbatim>\<open>esp_spp_write\<close>. If
  no drain is believed in flight and data is queued, the flag \<^verbatim>\<open>spp_writing\<close> is set, the
  drain runs, the first chunk goes to \<^verbatim>\<open>esp_spp_write\<close>, and the flag is still set after the
  call. If a drain is believed in flight and the stall test of the source does not hold,
  nothing happens: the state is unchanged and nothing is sent. The first chunk is what the
  ring hands out: the oldest bytes, at most \<^verbatim>\<open>BT_SPP_DATA_MAX_SIZE\<close> and no more than lie
  before the end of the storage.
\<close>

theorem bt_write_full_ring_recovery:
  assumes "spp_handle s = handle" and "spp_tx_buffer s = Some tx" and "buf \<noteq> []"
    and "xRingbufferGetCurFreeSize tx < length buf"
  shows "fst (bt_write env s handle buf) = Inr 0 \<and>
    (spp_writing s \<and> 0 \<le> t_last \<and> spp_last_us s = word_of_int t_last \<and>
     5 * 1000000 < now env - t_last \<and> rb_data tx \<noteq> [] \<longrightarrow>
       snd (bt_write env s handle buf) = spp_write env s handle \<and>
       snd (snd (bt_write env s handle buf))
         = [EspSppWrite handle
              (take (min BT_SPP_DATA_MAX_SIZE (rb_size tx - rb_read tx)) (rb_data tx))]) \<and>
    (\<not> spp_writing s \<and> rb_data tx \<noteq> [] \<longrightarrow>
       snd (bt_write env s handle buf) = spp_write env (s\<lparr>spp_writing := True\<rparr>) handle \<and>
       spp_writing (fst (snd (bt_write env s handle buf))) \<and>
       snd (snd (bt_write env s handle buf))
         = [EspSppWrite handle
              (take (min BT_SPP_DATA_MAX_SIZE (rb_size tx - rb_read tx)) (rb_data tx))]) \<and>
    (spp_writing s \<and> \<not> 5 * 1000000 < now env - uint (spp_last_us s) \<longrightarrow>
       snd (bt_write env s handle buf) = (s, []))"
proof -
  note b = bt_write_rejected [OF assms, of env]
  have r: "fst (bt_write env s handle buf) = Inr 0"
    unfolding b by (simp add: Let_def case_prod_beta)
  have stall: "snd (bt_write env s handle buf) = spp_write env s handle \<and>
       snd (snd (bt_write env s handle buf))
         = [EspSppWrite handle
              (take (min BT_SPP_DATA_MAX_SIZE (rb_size tx - rb_read tx)) (rb_data tx))]"
    if w: "spp_writing s" and t: "0 \<le> t_last" "spp_last_us s = word_of_int t_last"
      "5 * 1000000 < now env - t_last" and d: "rb_data tx \<noteq> []"
  proof -
    have "uint (spp_last_us s) \<le> t_last"
      unfolding t(2) using t(1) by (rule uint_truncated_le)
    then have c: "now env - uint (spp_last_us s) > 5 * 1000000"
      using t(3) by simp
    have k: "spp_writing (fst (spp_write env s handle))"
      using spp_write_data(2) [OF assms(1,2) d, of env] w by simp
    have "bt_write env s handle buf = (Inr 0, spp_write env s handle)"
      unfolding b using w c k by (simp add: Let_def case_prod_beta)
    then show ?thesis
      using spp_write_data(1) [OF assms(1,2) d, of env] by simp
  qed
  have idle: "snd (bt_write env s handle buf) = spp_write env (s\<lparr>spp_writing := True\<rparr>) handle \<and>
       spp_writing (fst (snd (bt_write env s handle buf))) \<and>
       snd (snd (bt_write env s handle buf))
         = [EspSppWrite handle
              (take (min BT_SPP_DATA_MAX_SIZE (rb_size tx - rb_read tx)) (rb_data tx))]"
    if w: "\<not> spp_writing s" and d: "rb_data tx \<noteq> []"
  proof -
    have h: "spp_handle (s\<lparr>spp_writing := True\<rparr>) = handle"
        "spp_tx_buffer (s\<lparr>spp_writing := True\<rparr>) = Some tx"
      using assms(1,2) by simp_all
    have "bt_write env s handle buf = (Inr 0, spp_write env (s\<lparr>spp_writing := True\<rparr>) handle)"
      unfolding b using w by (simp add: Let_def case_prod_beta)
    then show ?thesis
      using spp_write_data(1,2) [OF h d, of env] by simp
  qed
  have plain: "snd (bt_write env s handle buf) = (s, [])"
    if "spp_writing s" and "\<not> 5 * 1000000 < now env - uint (spp_last_us s)"
    unfolding b using that by (simp add: Let_def)
  show ?thesis
    using r stall idle plain by blast
qed

lemma bt_wrapped_fields:
  "spp_handle bt_idle_wrapped = 129"
  "spp_tx_buffer bt_idle_wrapped
     = Some \<lparr>rb_size = BT_SPP_RINGBUF_TX_SIZE, rb_read = 10000, rb_data = replicate 10238 0x41\<rparr>"
  "\<not> spp_writing bt_idle_wrapped"
  by (simp_all add: bt_full_def bt_idle_full_def bt_idle_wrapped_def)

text \<open>
  The theorem at the example connections, whose ring has two bytes free, for a write of
  three bytes: stalled for 7 seconds, idle, and in flight for 2 milliseconds; and idle with
  the stored bytes running over the end of the storage, where the chunk is the 240 bytes
  before the end.
\<close>

theorem bt_write_full_ring_recovery_witness:
  "spp_handle bt_full = 129 \<and>
   xRingbufferGetCurFreeSize \<lparr>rb_size = BT_SPP_RINGBUF_TX_SIZE, rb_read = 0, rb_data = replicate 10238 0x41\<rparr>
     < length [1, 2, 3 :: 8 word] \<and>
   fst (bt_write env_7s bt_full 129 [1, 2, 3]) = Inr 0 \<and>
   snd (snd (bt_write env_7s bt_full 129 [1, 2, 3]))
     = [EspSppWrite 129 (replicate 990 0x41)] \<and>
   fst (bt_write env_7s bt_idle_full 129 [1, 2, 3]) = Inr 0 \<and>
   spp_writing (fst (snd (bt_write env_7s bt_idle_full 129 [1, 2, 3]))) \<and>
   snd (snd (bt_write env_7s bt_idle_full 129 [1, 2, 3]))
     = [EspSppWrite 129 (replicate 990 0x41)] \<and>
   snd (bt_write (env_7s\<lparr>now := 3000\<rparr>) bt_full 129 [1, 2, 3]) = (bt_full, []) \<and>
   snd (snd (bt_write env_7s bt_idle_wrapped 129 [1, 2, 3]))
     = [EspSppWrite 129 (replicate 240 0x41)]"
proof -
  let ?tw = "\<lparr>rb_size = BT_SPP_RINGBUF_TX_SIZE, rb_read = 10000,
             rb_data = replicate 10238 (0x41 :: 8 word)\<rparr>"
  have fw: "xRingbufferGetCurFreeSize ?tw < length [1, 2, 3 :: 8 word]"
    by (simp add: xRingbufferGetCurFreeSize_def BT_SPP_RINGBUF_TX_SIZE_def)
  have chunkw: "take (min BT_SPP_DATA_MAX_SIZE (rb_size ?tw - rb_read ?tw)) (rb_data ?tw)
      = replicate 240 0x41"
    by (simp add: BT_SPP_DATA_MAX_SIZE_def BT_SPP_RINGBUF_TX_SIZE_def)
  let ?tx = "\<lparr>rb_size = BT_SPP_RINGBUF_TX_SIZE, rb_read = 0, rb_data = replicate 10238 (0x41 :: 8 word)\<rparr>"
  have f: "xRingbufferGetCurFreeSize ?tx < length [1, 2, 3 :: 8 word]"
    by (simp add: bt_full_free)
  have ne: "[1, 2, 3 :: 8 word] \<noteq> []" by simp
  have chunk: "take (min BT_SPP_DATA_MAX_SIZE (rb_size ?tx - rb_read ?tx)) (rb_data ?tx)
      = replicate 990 0x41"
    by (simp add: BT_SPP_DATA_MAX_SIZE_def BT_SPP_RINGBUF_TX_SIZE_def)
  note t1 = bt_write_full_ring_recovery
      [OF bt_full_fields(1) bt_full_fields(2) ne f, of env_7s 1000]
  note t2 = bt_write_full_ring_recovery
      [OF bt_full_fields(5) bt_full_fields(6) ne f, of env_7s 1000]
  note t3 = bt_write_full_ring_recovery
      [OF bt_full_fields(1) bt_full_fields(2) ne f, of "env_7s\<lparr>now := 3000\<rparr>" 1000]
  have h1: "spp_writing bt_full \<and> (0::int) \<le> 1000 \<and> spp_last_us bt_full = word_of_int 1000 \<and>
      5 * 1000000 < now env_7s - 1000 \<and> rb_data ?tx \<noteq> []"
    by (simp add: bt_full_fields env_7s_def)
  have h2: "\<not> spp_writing bt_idle_full \<and> rb_data ?tx \<noteq> []"
    by (simp add: bt_full_fields)
  have h3: "spp_writing bt_full \<and>
      \<not> 5 * 1000000 < now (env_7s\<lparr>now := 3000\<rparr>) - uint (spp_last_us bt_full)"
    by (simp add: bt_full_fields)
  have a: "fst (bt_write env_7s bt_full 129 [1, 2, 3]) = Inr 0"
    using t1 by (rule conjunct1)
  have b: "snd (snd (bt_write env_7s bt_full 129 [1, 2, 3]))
      = [EspSppWrite 129
             (take (min BT_SPP_DATA_MAX_SIZE (rb_size ?tx - rb_read ?tx)) (rb_data ?tx))]"
    using t1 h1 by blast
  have c: "fst (bt_write env_7s bt_idle_full 129 [1, 2, 3]) = Inr 0"
    using t2 by (rule conjunct1)
  have d: "spp_writing (fst (snd (bt_write env_7s bt_idle_full 129 [1, 2, 3])))"
      "snd (snd (bt_write env_7s bt_idle_full 129 [1, 2, 3]))
        = [EspSppWrite 129
             (take (min BT_SPP_DATA_MAX_SIZE (rb_size ?tx - rb_read ?tx)) (rb_data ?tx))]"
    using t2 h2 by blast+
  have e: "snd (bt_write (env_7s\<lparr>now := 3000\<rparr>) bt_full 129 [1, 2, 3]) = (bt_full, [])"
    using t3 h3 by blast
  note t4 = bt_write_full_ring_recovery
      [OF bt_wrapped_fields(1) bt_wrapped_fields(2) ne fw, of env_7s 1000]
  have h4: "\<not> spp_writing bt_idle_wrapped \<and> rb_data ?tw \<noteq> []"
    by (simp add: bt_wrapped_fields)
  have g: "snd (snd (bt_write env_7s bt_idle_wrapped 129 [1, 2, 3]))
      = [EspSppWrite 129
           (take (min BT_SPP_DATA_MAX_SIZE (rb_size ?tw - rb_read ?tw)) (rb_data ?tw))]"
    using t4 h4 by blast
  show ?thesis
    using a b c d e f g bt_full_fields(1) unfolding chunk chunkw by blast
qed

subsection \<open>C9: a second connection is rejected\<close>

text \<open>
  Claim C9. When a connection is open (\<^verbatim>\<open>spp_handle\<close> is not 0), \<^verbatim>\<open>_open\<close> for another
  connection disconnects the new handle at once, does not call the open callback, and
  changes nothing of the transport state but the flag \<^verbatim>\<open>spp_second_connexion\<close>: the active
  handle, both rings and the flag \<^verbatim>\<open>spp_writing\<close> are as before. The close event that
  follows for the rejected handle clears that flag and nothing else.
\<close>

theorem second_open_rejected:
  assumes "spp_handle s \<noteq> 0"
  shows "spp_open env s handle = (s\<lparr>spp_second_connexion := True\<rparr>, [EspSppDisconnect handle]) \<and>
    spp_handle (fst (spp_open env s handle)) = spp_handle s \<and>
    spp_rx_buffer (fst (spp_open env s handle)) = spp_rx_buffer s \<and>
    spp_tx_buffer (fst (spp_open env s handle)) = spp_tx_buffer s \<and>
    spp_writing (fst (spp_open env s handle)) = spp_writing s \<and>
    (handle \<noteq> spp_handle s \<longrightarrow>
       spp_close (fst (spp_open env s handle)) handle
         = (s\<lparr>spp_second_connexion := False\<rparr>, [], None))"
  using assms by (simp add: spp_open_def spp_close_def)

text \<open>The theorem at the example connection, for a second connection with handle 130.\<close>

theorem second_open_rejected_witness:
  "spp_handle bt_full \<noteq> 0 \<and>
   spp_open env_7s bt_full 130 = (bt_full\<lparr>spp_second_connexion := True\<rparr>, [EspSppDisconnect 130]) \<and>
   spp_tx_buffer (fst (spp_open env_7s bt_full 130)) = spp_tx_buffer bt_full \<and>
   spp_close (fst (spp_open env_7s bt_full 130)) 130 = (bt_full, [], None)"
proof -
  have h: "spp_handle bt_full \<noteq> 0" by (simp add: bt_full_fields)
  have n: "130 \<noteq> spp_handle bt_full" by (simp add: bt_full_fields)
  have e: "bt_full\<lparr>spp_second_connexion := False\<rparr> = bt_full" by (simp add: bt_full_def)
  note t = second_open_rejected [OF h, of env_7s 130]
  have "spp_close (fst (spp_open env_7s bt_full 130)) 130
      = (bt_full\<lparr>spp_second_connexion := False\<rparr>, [], None)"
    using t n by blast
  then have "spp_close (fst (spp_open env_7s bt_full 130)) 130 = (bt_full, [], None)"
    unfolding e .
  then show ?thesis using t h by blast
qed

section \<open>Proofs: the monitor task\<close>

lemma timeout_product_le:
  fixes T d :: "32 word"
  assumes "1000 * unat T \<le> unat d"
  shows "T * 1000 \<le> d"
proof -
  have "unat (T * 1000) = (unat T * 1000) mod 2 ^ 32"
    by (simp add: unat_word_ariths)
  also have "\<dots> \<le> unat T * 1000" by (rule mod_less_eq_dividend)
  finally show ?thesis
    using assms by (simp add: word_le_nat_alt)
qed

lemma loop_turn_timeout:
  assumes "monitor_on i" and "\<not> (frame_passes g i \<and> \<not> write_ok i)"
    and "1000 * unat (elm_timeout g) \<le> unat (us_read i - last_pass g (last_us st) [i])"
  shows "fst (elm_monitor_loop g st (i # rest) out) = Some Timeout \<and>
         last (snd (snd (elm_monitor_loop g st (i # rest) out)))
           = Write (ELM_NODATA_PROMPT @ ELM_NEWLINE g)"
proof -
  have "elm_timeout g * 1000 \<le> us_read i - last_pass g (last_us st) [i]"
    using assms(3) by (rule timeout_product_le)
  then show ?thesis
    using assms(1,2)
    by (auto simp: frame_passes_def Let_def split: option.splits)
qed

lemma loop_turn_write_error:
  assumes "monitor_on i" and "frame_passes g i" and "\<not> write_ok i"
  shows "fst (elm_monitor_loop g st (i # rest) out) = Some WriteError"
  using assms by (auto simp: frame_passes_def Let_def split: option.splits)

lemma loop_append:
  "elm_monitor_loop g st pre out = (None, st', out') \<Longrightarrow>
   elm_monitor_loop g st (pre @ xs) out = elm_monitor_loop g st' xs out' \<and>
   last_us st' = last_pass g (last_us st) pre"
proof (induction pre arbitrary: st out)
  case Nil
  then show ?case by simp
next
  case (Cons i pre)
  from Cons.prems show ?case
    by (auto simp: frame_passes_def Let_def dest!: Cons.IH
        split: if_splits option.splits)
qed

lemma last_pass_append: "last_pass g l (a @ b) = last_pass g (last_pass g l a) b"
  by (induction a arbitrary: l) simp_all


lemma task_running:
  "fst (elm_monitor_task True start g pre) = None \<Longrightarrow>
   \<exists>st out. elm_monitor_loop g \<lparr>stat_us = start, last_us = start, count = 0\<rparr> pre [] = (None, st, out)"
  by (auto simp: elm_monitor_task_def split: prod.splits option.splits)

subsection \<open>C8: the idle timeout of the monitor\<close>

text \<open>
  Claim C8. Let the monitor task be in its loop after the turns \<open>pre\<close>, and let the next
  turn \<open>i\<close> find \<^verbatim>\<open>G.elm_monitor\<close> still set. If the time read in that turn is at least
  \<^verbatim>\<open>elm_timeout\<close> milliseconds after the timestamp of the last frame that passed the filter
  (the frame of this turn included), or after the start of the monitor when none has
  passed, and no write of a frame fails in this turn, then the task writes \<^verbatim>\<open>NO DATA\<close> and
  the configured newline as its last output, leaves the loop and clears \<^verbatim>\<open>G.elm_monitor\<close>.
  If the frame of the turn passes the filter and its write fails, the task leaves the loop
  as well and clears the flag. Times are the 32-bit microsecond values the source
  compares; the later turns \<open>rest\<close> are never reached.
\<close>

theorem monitor_idle_timeout:
  assumes "fst (elm_monitor_task True start g pre) = None" and "monitor_on i"
  shows "(\<not> (frame_passes g i \<and> \<not> write_ok i) \<and>
          1000 * unat (elm_timeout g) \<le> unat (us_read i - last_pass g start (pre @ [i])) \<longrightarrow>
            fst (elm_monitor_task True start g (pre @ i # rest)) = Some Timeout \<and>
            \<not> elm_monitor (fst (snd (elm_monitor_task True start g (pre @ i # rest)))) \<and>
            last (snd (snd (elm_monitor_task True start g (pre @ i # rest))))
              = Write (ELM_NODATA_PROMPT @ ELM_NEWLINE g)) \<and>
         (frame_passes g i \<and> \<not> write_ok i \<longrightarrow>
            fst (elm_monitor_task True start g (pre @ i # rest)) = Some WriteError \<and>
            \<not> elm_monitor (fst (snd (elm_monitor_task True start g (pre @ i # rest))))) \<and>
         ELM_NODATA_PROMPT = ''NO DATA''"
proof -
  let ?st0 = "\<lparr>stat_us = start, last_us = start, count = 0\<rparr>"
  obtain st out where run: "elm_monitor_loop g ?st0 pre [] = (None, st, out)"
    using task_running [OF assms(1)] by blast
  from loop_append [OF run, of "i # rest"]
  have app: "elm_monitor_loop g ?st0 (pre @ i # rest) [] = elm_monitor_loop g st (i # rest) out"
    and l: "last_us st = last_pass g start pre"
    by simp_all
  have lp: "last_pass g start (pre @ [i]) = last_pass g (last_us st) [i]"
    by (simp add: last_pass_append l)
  have task: "elm_monitor_task True start g (pre @ i # rest) =
      (case elm_monitor_loop g st (i # rest) out of
         (None, st', out') \<Rightarrow> (None, g\<lparr>elm_monitor_task_run := True\<rparr>, out')
       | (Some e, st', out') \<Rightarrow>
           (Some e, g\<lparr>elm_monitor := False, elm_monitor_task_run := False\<rparr>, out'))"
    unfolding elm_monitor_task_def app by simp
  have idle: "fst (elm_monitor_task True start g (pre @ i # rest)) = Some Timeout \<and>
      \<not> elm_monitor (fst (snd (elm_monitor_task True start g (pre @ i # rest)))) \<and>
      last (snd (snd (elm_monitor_task True start g (pre @ i # rest))))
        = Write (ELM_NODATA_PROMPT @ ELM_NEWLINE g)"
    if a: "\<not> (frame_passes g i \<and> \<not> write_ok i)"
      and b: "1000 * unat (elm_timeout g) \<le> unat (us_read i - last_pass g start (pre @ [i]))"
  proof -
    note t = loop_turn_timeout [OF assms(2) a b [unfolded lp], of rest out]
    obtain e st' out' where r: "elm_monitor_loop g st (i # rest) out = (e, st', out')"
      by (metis prod.collapse)
    show ?thesis
      unfolding task using t unfolding r by simp
  qed
  have fail: "fst (elm_monitor_task True start g (pre @ i # rest)) = Some WriteError \<and>
      \<not> elm_monitor (fst (snd (elm_monitor_task True start g (pre @ i # rest))))"
    if a: "frame_passes g i" and b: "\<not> write_ok i"
  proof -
    note t = loop_turn_write_error [OF assms(2) a b, of st rest out]
    obtain e st' out' where r: "elm_monitor_loop g st (i # rest) out = (e, st', out')"
      by (metis prod.collapse)
    show ?thesis
      unfolding task using t unfolding r by simp
  qed
  show ?thesis
    using idle fail by (simp add: ELM_NODATA_PROMPT_def)
qed

lemma elm_filter_clear_zeroed:
  "elm_filter_clear (replicate ELM_ST_FILTER_LEN zero_filter) = replicate ELM_ST_FILTER_LEN zero_filter"
  by (simp add: elm_filter_clear_def ELM_ST_FILTER_LEN_def zero_filter_def)

lemma mon_session_filters:
  "elm_filter mon_session = \<lparr>flt_pattern = 0, flt_mask = 0\<rparr>"
  "pass_filter mon_session = replicate ELM_ST_FILTER_LEN zero_filter"
  "block_filter mon_session = replicate ELM_ST_FILTER_LEN zero_filter"
  unfolding mon_session_def elm_session_start_def elm_reset_def elm_zeroed_def
  by (simp_all add: elm_filter_clear_zeroed)

lemma zeroed_first_slot: "flt_mask (replicate ELM_ST_FILTER_LEN zero_filter ! 0) = 0"
  by (simp add: ELM_ST_FILTER_LEN_def zero_filter_def)

lemma mon_session_passes: "elm_filter_test mon_session ident t = (ident \<noteq> 0)"
  unfolding elm_filter_test_def mon_session_filters Let_def
  by (simp add: zeroed_first_slot)

lemma mon_session_timeout: "elm_timeout mon_session = 5000" "elm_monitor mon_session"
  by (simp_all add: mon_session_def elm_session_start_def elm_reset_def ELM_TIMEOUT_def)

text \<open>
  The theorem in the example run, started at 1.0 s with the default timeout of 5000 ms: a
  frame stamped 1.2 s passes, the turn at 1.3 s goes on, the turn at 6.3 s ends the monitor
  with \<^verbatim>\<open>NO DATA\<close>.
\<close>

theorem monitor_idle_timeout_witness:
  "fst (elm_monitor_task True 1000000 mon_session [turn_frame, turn_idle 1300000]) = None \<and>
   monitor_on (turn_idle 6300000) \<and>
   last_pass mon_session 1000000 [turn_frame, turn_idle 1300000, turn_idle 6300000] = 1200000 \<and>
   fst (elm_monitor_task True 1000000 mon_session
          [turn_frame, turn_idle 1300000, turn_idle 6300000]) = Some Timeout \<and>
   last (snd (snd (elm_monitor_task True 1000000 mon_session
          [turn_frame, turn_idle 1300000, turn_idle 6300000])))
     = Write (''NO DATA'' @ [CHR 0x0D, CHR 0x0A])"
proof -
  have run: "fst (elm_monitor_task True 1000000 mon_session [turn_frame, turn_idle 1300000]) = None"
    by (simp add: elm_monitor_task_def turn_frame_def turn_idle_def frame_132_def
        mon_session_passes mon_session_timeout Let_def)
  have on: "monitor_on (turn_idle 6300000)"
    by (simp add: turn_idle_def)
  have lp: "last_pass mon_session 1000000 [turn_frame, turn_idle 1300000, turn_idle 6300000]
      = 1200000"
    by (simp add: turn_frame_def turn_idle_def frame_132_def frame_passes_def
        mon_session_passes)
  have h: "\<not> (frame_passes mon_session (turn_idle 6300000) \<and> \<not> write_ok (turn_idle 6300000)) \<and>
      1000 * unat (elm_timeout mon_session)
        \<le> unat (us_read (turn_idle 6300000)
                  - last_pass mon_session 1000000
                      ([turn_frame, turn_idle 1300000] @ [turn_idle 6300000]))"
    using lp by (simp add: turn_idle_def frame_passes_def mon_session_timeout)
  have nl: "ELM_NEWLINE mon_session = [CHR 0x0D, CHR 0x0A]"
    by (simp add: ELM_NEWLINE_def NEWLINE_CRLF_def mon_session_def session_start_fields)
  note t = monitor_idle_timeout [OF run on, of "[]"]
  have "fst (elm_monitor_task True 1000000 mon_session
          ([turn_frame, turn_idle 1300000] @ [turn_idle 6300000])) = Some Timeout \<and>
      last (snd (snd (elm_monitor_task True 1000000 mon_session
          ([turn_frame, turn_idle 1300000] @ [turn_idle 6300000]))))
        = Write (ELM_NODATA_PROMPT @ ELM_NEWLINE mon_session)"
    using t h by blast
  then show ?thesis
    using run on lp by (simp add: nl ELM_NODATA_PROMPT_def)
qed

end
